theory Spec2Isabelle
  imports Main "HOL-Library.Word"
begin

unbundle bit_operations_syntax

section \<open>Data model\<close>

text \<open>
  A Python \<open>bytes\<close> value is a list of 8-bit words; Python integers are unbounded
  (\<open>nat\<close> where the code can only produce a non-negative value, \<open>int\<close> elsewhere).
  Every exception the modelled code can raise is a constructor of \<open>error\<close>.
\<close>

type_synonym byte = "8 word"

datatype error =
    EOFError            \<comment> \<open>\<open>decode_varint\<close>: stream exhausted\<close>
  | StructError         \<comment> \<open>\<open>struct.unpack("<I", b)\<close> with \<open>len(b) \<noteq> 4\<close>\<close>
  | ValueError          \<comment> \<open>"Block not on disk", and \<open>mmap\<close> of an empty file\<close>
  | OSError             \<comment> \<open>\<open>seek\<close> to a negative position\<close>
  | FileNotFoundError   \<comment> \<open>\<open>open\<close> of a missing file\<close>
  | IndexError          \<comment> \<open>list index out of range\<close>
  | TypeError           \<comment> \<open>bad call signature, or an index that is not an integer\<close>
  | AttributeError      \<comment> \<open>attribute read before it is assigned\<close>
  | NameError           \<comment> \<open>global name that is never bound\<close>
  | UnboundLocalError   \<comment> \<open>local variable read before assignment\<close>
  | BinasciiError       \<comment> \<open>\<open>binascii.unhexlify\<close>: odd length or a character that is no hex digit\<close>
  | DecodeError         \<comment> \<open>any failure of a decoder that lives outside \<open>src/\<close>\<close>

section \<open>utils.py\<close>

text \<open>
  \<open>decode_varint\<close>: the \<open>while True\<close> loop over \<open>stream.read(1)\<close>. The loop
  variables \<open>length\<close>, \<open>shift\<close> and \<open>result\<close> are the arguments of the recursion.
\<close>

fun decode_varint_loop :: "byte list \<Rightarrow> nat \<Rightarrow> nat \<Rightarrow> nat \<Rightarrow> error + (nat \<times> nat)" where
  "decode_varint_loop [] len shift result = Inl EOFError"
| "decode_varint_loop (i # stream) len shift result =
     (let len' = len + 1;
          result' = result OR push_bit shift (unat (i AND 0x7f));
          shift' = shift + 7
      in if i AND 0x80 = 0 then Inr (result', len')
         else decode_varint_loop stream len' shift' result')"

definition decode_varint :: "byte list \<Rightarrow> error + (nat \<times> nat)" where
  "decode_varint varint = decode_varint_loop varint 0 0 0"

text \<open>
  The repository has only the decoder. The encoder below follows the specification's
  words for the base-128 varint scheme: seven bits per byte, least significant group
  first, the high bit set on every byte but the last.
\<close>

fun encode_varint :: "nat \<Rightarrow> byte list" where
  "encode_varint v =
     (if v < 128 then [of_nat v]
      else of_nat (v mod 128 + 128) # encode_varint (v div 128))"

declare encode_varint.simps [simp del]

text \<open>\<open>bits V\<close> is the bit length of \<open>V\<close> (Python's \<open>int.bit_length\<close>).\<close>

fun bits :: "nat \<Rightarrow> nat" where
  "bits n = (if n = 0 then 0 else Suc (bits (n div 2)))"

declare bits.simps [simp del]

text \<open>
  The specification's description of the decoded value: the low seven bits of the
  \<open>k\<close>-th byte consumed are OR-ed in at bit offset \<open>7 * k\<close>.
\<close>

fun or_low7 :: "nat \<Rightarrow> byte list \<Rightarrow> nat" where
  "or_low7 k [] = 0"
| "or_low7 k (b # bs) = push_bit (7 * k) (unat (b AND 0x7f)) OR or_low7 (k + 1) bs"

text \<open>The number of bytes the encoder emits.\<close>

fun nbytes :: "nat \<Rightarrow> nat" where
  "nbytes v = (if v < 128 then 1 else Suc (nbytes (v div 128)))"

declare nbytes.simps [simp del]

section \<open>Python sequences\<close>

text \<open>
  \<open>xs[a:b]\<close> for non-negative bounds (out-of-range bounds are clamped, never an error),
  the general slice with negative bounds counted from the end, and \<open>xs[i]\<close>, which
  raises \<open>IndexError\<close> outside \<open>-len(xs) \<le> i < len(xs)\<close>.
\<close>

definition bytes_slice :: "'a list \<Rightarrow> nat \<Rightarrow> nat \<Rightarrow> 'a list" where
  "bytes_slice xs a b = drop a (take b xs)"

definition py_bound :: "nat \<Rightarrow> int \<Rightarrow> nat" where
  "py_bound n i = (if i < 0 then nat (max 0 (i + int n)) else min (nat i) n)"

definition py_slice :: "'a list \<Rightarrow> int \<Rightarrow> int \<Rightarrow> 'a list" where
  "py_slice xs a b = bytes_slice xs (py_bound (length xs) a) (py_bound (length xs) b)"

definition py_index :: "'a list \<Rightarrow> int \<Rightarrow> error + 'a" where
  "py_index xs i =
     (if 0 \<le> i \<and> i < int (length xs) then Inr (xs ! nat i)
      else if - int (length xs) \<le> i \<and> i < 0 then Inr (xs ! nat (i + int (length xs)))
      else Inl IndexError)"

section \<open>blockchain.py: block files\<close>

definition BITCOIN_CONSTANT :: "byte list" where
  "BITCOIN_CONSTANT = [0xf9, 0xbe, 0xb4, 0xd9]"

text \<open>\<open>struct.unpack("<I", data)[0]\<close>: exactly four bytes, little-endian.\<close>

fun unpack_u32 :: "byte list \<Rightarrow> error + nat" where
  "unpack_u32 [b0, b1, b2, b3] =
     Inr (unat b0 + 256 * unat b1 + 65536 * unat b2 + 16777216 * unat b3)"
| "unpack_u32 data = Inl StructError"

text \<open>
  \<open>get_blocks\<close> is a generator: its model returns the records yielded, in order, and
  the exception that ended the generator, if any. The argument is the content of the
  (existing) file. Mapping an empty file raises \<open>ValueError\<close> before anything is yielded.
  A record is yielded before the scan goes on, so a later exception keeps the records
  already yielded.
\<close>

function get_blocks_loop :: "byte list \<Rightarrow> nat \<Rightarrow> byte list list \<times> error option" where
  "get_blocks_loop raw_data offset =
     (if int offset < int (length raw_data) - 4 then
        (if bytes_slice raw_data offset (offset + 4) = BITCOIN_CONSTANT then
           (case unpack_u32 (bytes_slice raw_data (offset + 4) (offset + 4 + 4)) of
              Inl e \<Rightarrow> ([], Some e)
            | Inr sz \<Rightarrow>
                apfst ((#) (bytes_slice raw_data (offset + 4 + (4 + sz) - sz) (offset + 4 + (4 + sz))))
                  (get_blocks_loop raw_data (offset + 4 + (4 + sz))))
         else get_blocks_loop raw_data (offset + 1))
      else ([], None))"
  by pat_completeness auto
termination
  by (relation "measure (\<lambda>(raw_data, offset). length raw_data - offset)") auto

declare get_blocks_loop.simps [simp del]

definition get_blocks :: "byte list \<Rightarrow> byte list list \<times> error option" where
  "get_blocks raw_data =
     (if raw_data = [] then ([], Some ValueError) else get_blocks_loop raw_data 0)"

text \<open>
  The file system below \<open>self.path\<close>: the content of \<open>blk%05d.dat\<close> for a file number,
  \<open>None\<close> when there is no such file, and the largest position the file system lets a
  file be positioned at.
\<close>

record file_system =
  content :: "int \<Rightarrow> byte list option"
  seek_max :: int

type_synonym files = file_system

text \<open>
  \<open>f.seek(pos)\<close> on a file opened with \<open>"rb"\<close>: \<open>ValueError\<close> when the position does
  not fit a signed 64-bit file offset, \<open>OSError\<close> when the position is negative or beyond
  what the file system allows; a position past the end of the file is accepted.
\<close>

definition fits_off_t :: "int \<Rightarrow> bool" where
  "fits_off_t pos = (- (2 ^ 63) \<le> pos \<and> pos < 2 ^ 63)"

definition file_seek :: "files \<Rightarrow> int \<Rightarrow> error + nat" where
  "file_seek fs pos =
     (if \<not> fits_off_t pos then Inl ValueError
      else if pos < 0 \<or> seek_max fs < pos then Inl OSError
      else Inr (nat pos))"

text \<open>
  \<open>get_block\<close>: \<open>open\<close>, \<open>seek(offset - 4)\<close>, \<open>read(4)\<close> (short at the end of the
  file, so that \<open>unpack\<close> raises), \<open>read(size)\<close> (short at the end of the file, without
  an error).
\<close>

definition get_block :: "files \<Rightarrow> int \<Rightarrow> int \<Rightarrow> error + byte list" where
  "get_block fs fileno offset =
     (case content fs fileno of
        None \<Rightarrow> Inl FileNotFoundError
      | Some bytes \<Rightarrow>
          (case file_seek fs (offset - 4) of
             Inl e \<Rightarrow> Inl e
           | Inr pos \<Rightarrow>
               (case unpack_u32 (bytes_slice bytes pos (pos + 4)) of
                  Inl e \<Rightarrow> Inl e
                | Inr sz \<Rightarrow> Inr (bytes_slice bytes (pos + 4) (pos + 4 + sz)))))"

text \<open>
  A well-formed record of a block file, as the specification describes it: the magic
  marker, the payload length as four little-endian bytes, the payload.
\<close>

definition le32 :: "nat \<Rightarrow> byte list" where
  "le32 n = [of_nat n, of_nat (n div 256), of_nat (n div 65536), of_nat (n div 16777216)]"

definition record_bytes :: "byte list \<Rightarrow> byte list" where
  "record_bytes payload = BITCOIN_CONSTANT @ le32 (length payload) @ payload"

section \<open>blockchain.py: the block index\<close>

text \<open>
  Modelled from the spec: \<open>DBBlockIndex\<close> (\<open>index.py\<close> is not among the sources). An
  entry exposes the block hash in display form, the height, and the file number (the
  attribute \<open>file\<close>, here \<open>file_no\<close>) and data offset of the block, both \<open>-1\<close> when the block is not stored on disk.
\<close>

record DBBlockIndex =
  hash :: string
  height :: int
  file_no :: int
  data_pos :: int

text \<open>
  Modelled from the spec: \<open>Block\<close> (\<open>block.py\<close> is not among the sources). A block
  keeps the raw bytes it was built from and the height its caller supplied, \<open>None\<close> when
  no height was given. What its decoder computes from the raw bytes is a parameter of the
  functions below: \<open>hdr raw\<close> is the pair of \<open>block.hash\<close> and
  \<open>block.header.previous_block_hash\<close>, or the decoder's exception.
\<close>

record Block =
  block_raw :: "byte list"
  block_height :: "int option"

type_synonym header_decoder = "byte list \<Rightarrow> error + (string \<times> string)"

definition no_data :: "DBBlockIndex \<Rightarrow> bool" where
  "no_data index = (file_no index = - 1 \<or> data_pos index = - 1)"

text \<open>
  \<open>_index_confirmed\<close>. The inner \<open>for chain in chains\<close> loop either returns a decision
  or leaves the chains, some of them extended, for the next index entry.
\<close>

datatype 'a flow = Return bool | Next 'a | Raise error

fun grow_chains ::
  "nat \<Rightarrow> string \<Rightarrow> string \<Rightarrow> string option \<Rightarrow> string list list \<Rightarrow> string list list flow"
where
  "grow_chains num_confirmations h prev first_hash [] = Next []"
| "grow_chains num_confirmations h prev first_hash (chain # chain_list) =
     (if chain = [] then Raise IndexError
      else
        (let chain' = (if last chain = prev then chain @ [h] else chain)
         in if length chain' = num_confirmations then
              (case first_hash of
                 None \<Rightarrow> Raise AttributeError
               | Some f \<Rightarrow> Return (f \<in> set chain'))
            else
              (case grow_chains num_confirmations h prev first_hash chain_list of
                 Next chain_list' \<Rightarrow> Next (chain' # chain_list')
               | Return b \<Rightarrow> Return b
               | Raise e \<Rightarrow> Raise e)))"

text \<open>
  The outer loop. The result \<open>None\<close> is Python's \<open>None\<close>, returned when the entries run
  out before any chain reaches \<open>num_confirmations\<close>.
\<close>

fun index_confirmed_loop ::
  "header_decoder \<Rightarrow> files \<Rightarrow> nat \<Rightarrow> nat \<Rightarrow> string option \<Rightarrow> string list list \<Rightarrow>
   DBBlockIndex list \<Rightarrow> error + bool option"
where
  "index_confirmed_loop hdr fs num_confirmations i first_hash chain_list [] = Inr None"
| "index_confirmed_loop hdr fs num_confirmations i first_hash chain_list (index # rest) =
     (if file_no index = - 1 \<or> data_pos index = - 1 then Inr (Some False)
      else
        (case get_block fs (file_no index) (data_pos index) of
           Inl e \<Rightarrow> Inl e
         | Inr raw \<Rightarrow>
             (case hdr raw of
                Inl e \<Rightarrow> Inl e
              | Inr (h, prev) \<Rightarrow>
                  (let first_hash' = (if i = 0 then Some h else first_hash)
                   in case grow_chains num_confirmations h prev first_hash' (chain_list @ [[h]]) of
                        Raise e \<Rightarrow> Inl e
                      | Return b \<Rightarrow> Inr (Some b)
                      | Next chain_list' \<Rightarrow>
                          index_confirmed_loop hdr fs num_confirmations (i + 1) first_hash'
                            chain_list' rest))))"

definition index_confirmed :: "header_decoder \<Rightarrow> files \<Rightarrow> DBBlockIndex list \<Rightarrow> error + bool option" where
  "index_confirmed hdr fs chain_indexes = index_confirmed_loop hdr fs 6 0 None [] chain_indexes"

text \<open>Truth value of what \<open>_index_confirmed\<close> returns: \<open>None\<close> is false.\<close>

definition truthy :: "bool option \<Rightarrow> bool" where
  "truthy r = (r = Some True)"

text \<open>
  Lines 184 to 205 of \<open>_build_block_index\<close>: the loop that collects the orphans, over
  the position \<open>i\<close> of \<open>enumerate(blockIndexes)\<close>.
\<close>

function orphan_loop ::
  "header_decoder \<Rightarrow> files \<Rightarrow> DBBlockIndex list \<Rightarrow> nat \<Rightarrow> int \<Rightarrow> string list \<Rightarrow> error + string list"
where
  "orphan_loop hdr fs blockIndexes i last_height orphans =
     (if i < length blockIndexes then
        (let blockIdx = blockIndexes ! i
         in if last_height > - 1 \<and> height blockIdx = last_height then
              (case index_confirmed hdr fs (drop i blockIndexes) of
                 Inl e \<Rightarrow> Inl e
               | Inr c \<Rightarrow>
                   (if truthy c then
                      (case py_index blockIndexes (int i - 1) of
                         Inl e \<Rightarrow> Inl e
                       | Inr previous \<Rightarrow>
                           orphan_loop hdr fs blockIndexes (i + 1) (height blockIdx)
                             (orphans @ [hash previous]))
                    else
                      orphan_loop hdr fs blockIndexes (i + 1) (height blockIdx)
                        (orphans @ [hash (blockIndexes ! i)])))
            else orphan_loop hdr fs blockIndexes (i + 1) (height blockIdx) orphans)
      else Inr orphans)"
  by pat_completeness auto
termination
  by (relation "measure (\<lambda>(hdr, fs, blockIndexes, i, last_height, orphans). length blockIndexes - i)")
     auto

declare orphan_loop.simps [simp del]

text \<open>Lines 184 to 210: the orphans are collected, then filtered out by hash.\<close>

definition prune_orphans :: "header_decoder \<Rightarrow> files \<Rightarrow> DBBlockIndex list \<Rightarrow> error + DBBlockIndex list" where
  "prune_orphans hdr fs blockIndexes =
     (case orphan_loop hdr fs blockIndexes 0 (- 1) [] of
        Inl e \<Rightarrow> Inl e
      | Inr orphans \<Rightarrow> Inr (filter (\<lambda>block. hash block \<notin> set orphans) blockIndexes))"






definition extend_chain :: "string \<Rightarrow> string \<Rightarrow> string list \<Rightarrow> string list" where
  "extend_chain h prev chain = (if last chain = prev then chain @ [h] else chain)"



section \<open>blockchain.py: reading through the index\<close>

text \<open>
  \<open>get_block_by_height\<close>: the height is a position of \<open>self.blockIndexes\<close> (Python
  indexing: negative positions count from the end, a position outside the list raises
  \<open>IndexError\<close>); \<open>ValueError("Block not on disk")\<close> when the entry there has no
  location.
\<close>

definition get_block_by_height :: "files \<Rightarrow> DBBlockIndex list \<Rightarrow> int \<Rightarrow> error + Block" where
  "get_block_by_height fs blockIndexes h =
     (case py_index blockIndexes h of
        Inl e \<Rightarrow> Inl e
      | Inr blk \<Rightarrow>
          if file_no blk = - 1 \<or> data_pos blk = - 1 then Inl ValueError
          else (case get_block fs (file_no blk) (data_pos blk) of
                  Inl e \<Rightarrow> Inl e
                | Inr raw \<Rightarrow> Inr \<lparr>block_raw = raw, block_height = Some (height blk)\<rparr>))"

text \<open>
  \<open>get_ordered_blocks\<close>. The entries the \<open>for\<close> loop runs over (lines 227 to 237),
  then the loop itself, a generator: it stops at the first entry without a location, and
  an exception of \<open>get_block\<close> ends it after the blocks already yielded.
\<close>

definition ordered_entries :: "DBBlockIndex list \<Rightarrow> int \<Rightarrow> int option \<Rightarrow> DBBlockIndex list" where
  "ordered_entries blockIndexes start end_opt =
     (let end = (case end_opt of None \<Rightarrow> int (length blockIndexes) | Some e \<Rightarrow> e)
      in if end < start then
           py_slice (rev blockIndexes)
             (int (length (rev blockIndexes)) - start) (int (length (rev blockIndexes)) - end)
         else py_slice blockIndexes start end)"

fun ordered_blocks_loop :: "files \<Rightarrow> DBBlockIndex list \<Rightarrow> Block list \<times> error option" where
  "ordered_blocks_loop fs [] = ([], None)"
| "ordered_blocks_loop fs (blkIdx # rest) =
     (if file_no blkIdx = - 1 \<or> data_pos blkIdx = - 1 then ([], None)
      else (case get_block fs (file_no blkIdx) (data_pos blkIdx) of
              Inl e \<Rightarrow> ([], Some e)
            | Inr raw \<Rightarrow>
                apfst ((#) \<lparr>block_raw = raw, block_height = Some (height blkIdx)\<rparr>)
                  (ordered_blocks_loop fs rest)))"

definition get_ordered_blocks ::
  "files \<Rightarrow> DBBlockIndex list \<Rightarrow> int \<Rightarrow> int option \<Rightarrow> Block list \<times> error option" where
  "get_ordered_blocks fs blockIndexes start end_opt =
     ordered_blocks_loop fs (ordered_entries blockIndexes start end_opt)"

text \<open>The block built from an entry whose data can be fetched.\<close>

definition block_at :: "files \<Rightarrow> DBBlockIndex \<Rightarrow> Block option" where
  "block_at fs blkIdx =
     (if file_no blkIdx = - 1 \<or> data_pos blkIdx = - 1 then None
      else (case get_block fs (file_no blkIdx) (data_pos blkIdx) of
              Inl e \<Rightarrow> None
            | Inr raw \<Rightarrow> Some \<lparr>block_raw = raw, block_height = Some (height blkIdx)\<rparr>))"

section \<open>blockchain.py: transaction lookup\<close>

text \<open>
  \<open>format_hash\<close> of \<open>utils.py\<close> (\<open>hexlify\<close> of the reversed bytes) and
  \<open>bitcoin.core.lx\<close> (\<open>unhexlify\<close>, reversed), which turns the display form of a
  transaction id into the bytes of the store key.
\<close>

definition hex_digit :: "nat \<Rightarrow> char" where
  "hex_digit n = ''0123456789abcdef'' ! n"

definition format_hash :: "byte list \<Rightarrow> string" where
  "format_hash h =
     concat (map (\<lambda>b. [hex_digit (unat b div 16), hex_digit (unat b mod 16)]) (rev h))"

definition hexval :: "char \<Rightarrow> nat option" where
  "hexval c =
     (let n = (of_char c :: nat)
      in if 48 \<le> n \<and> n \<le> 57 then Some (n - 48)
         else if 97 \<le> n \<and> n \<le> 102 then Some (n - 87)
         else if 65 \<le> n \<and> n \<le> 70 then Some (n - 55)
         else None)"

fun unhexlify :: "string \<Rightarrow> error + byte list" where
  "unhexlify [] = Inr []"
| "unhexlify [c] = Inl BinasciiError"
| "unhexlify (c # d # cs) =
     (case (hexval c, hexval d) of
        (Some hi, Some lo) \<Rightarrow>
          (case unhexlify cs of
             Inl e \<Rightarrow> Inl e
           | Inr bs \<Rightarrow> Inr (of_nat (16 * hi + lo) # bs))
      | _ \<Rightarrow> Inl BinasciiError)"

definition lx :: "string \<Rightarrow> error + byte list" where
  "lx h = (case unhexlify h of Inl e \<Rightarrow> Inl e | Inr bs \<Rightarrow> Inr (rev bs))"

text \<open>
  Lines 145 to 149 of \<open>get_transaction\<close>: what is read out of the stored value.
  \<open>txIndexDb.get\<close> returns \<open>None\<close> for a key that is not in the store, and
  \<open>BytesIO(None)\<close> is the empty stream, so the first \<open>decode_varint\<close> raises. The
  variable \<open>size\<close> is the number of bytes of the second varint, and \<open>txOffs\<close> is the
  pair that the third \<open>decode_varint\<close> returns.
\<close>

definition tx_locator :: "byte list option \<Rightarrow> error + (nat \<times> nat \<times> (nat \<times> nat))" where
  "tx_locator txInfo =
     (case txInfo of
        None \<Rightarrow> (case decode_varint [] of Inl e \<Rightarrow> Inl e | Inr r \<Rightarrow> Inl TypeError)
      | Some v \<Rightarrow>
          (case decode_varint v of
             Inl e \<Rightarrow> Inl e
           | Inr (fileNo, offset) \<Rightarrow>
               (case decode_varint (drop offset v) of
                  Inl e \<Rightarrow> Inl e
                | Inr (blockOffs, sz) \<Rightarrow>
                    (case decode_varint (drop (offset + sz) v) of
                       Inl e \<Rightarrow> Inl e
                     | Inr txOffs \<Rightarrow> Inr (fileNo, blockOffs, txOffs)))))"

text \<open>
  \<open>get_transaction\<close>. The transaction index is a map from keys to values. What
  \<open>Block.get_transaction\<close> does with the block and the value it is handed belongs to
  \<open>block.py\<close>, which is not among the sources: it is the parameter \<open>tx_at\<close>.
\<close>

definition get_transaction ::
  "files \<Rightarrow> (byte list \<rightharpoonup> byte list) \<Rightarrow> (Block \<Rightarrow> nat \<times> nat \<Rightarrow> error + 'tx) \<Rightarrow> string \<Rightarrow> error + 'tx"
where
  "get_transaction fs txIndexDb tx_at txid =
     (case lx txid of
        Inl e \<Rightarrow> Inl e
      | Inr key \<Rightarrow>
          (case tx_locator (txIndexDb (0x74 # key)) of
             Inl e \<Rightarrow> Inl e
           | Inr (fileNo, blockOffs, txOffs) \<Rightarrow>
               (case get_block fs (int fileNo) (int blockOffs) of
                  Inl e \<Rightarrow> Inl e
                | Inr raw \<Rightarrow> tx_at \<lparr>block_raw = raw, block_height = None\<rparr> txOffs)))"

text \<open>
  The decoding as the specification words it, for comparison: four consecutive varints,
  the third a declared size that is consumed and not used, the fourth the offset of the
  transaction in the block.
\<close>

definition tx_locator_spec :: "byte list \<Rightarrow> error + (nat \<times> nat \<times> nat)" where
  "tx_locator_spec v =
     (case decode_varint v of
        Inl e \<Rightarrow> Inl e
      | Inr (fileNo, n1) \<Rightarrow>
          (case decode_varint (drop n1 v) of
             Inl e \<Rightarrow> Inl e
           | Inr (blockOffs, n2) \<Rightarrow>
               (case decode_varint (drop (n1 + n2) v) of
                  Inl e \<Rightarrow> Inl e
                | Inr (declared, n3) \<Rightarrow>
                    (case decode_varint (drop (n1 + n2 + n3) v) of
                       Inl e \<Rightarrow> Inl e
                     | Inr (txOffs, n4) \<Rightarrow> Inr (fileNo, blockOffs, txOffs)))))"

section \<open>blockchain.py: construction\<close>

text \<open>
  The block-index store as the list of its records in iteration order, and the list
  comprehension of line 166 over it. Decoding a record into a \<open>DBBlockIndex\<close> belongs to
  \<open>index.py\<close>, which is not among the sources: it is the parameter \<open>decode\<close>.
\<close>

type_synonym store = "(byte list \<times> byte list) list"

type_synonym index_decoder = "string \<Rightarrow> byte list \<Rightarrow> error + DBBlockIndex"

fun read_index :: "index_decoder \<Rightarrow> store \<Rightarrow> error + DBBlockIndex list" where
  "read_index decode [] = Inr []"
| "read_index decode ((k, v) # records) =
     (case k of
        [] \<Rightarrow> Inl IndexError
      | k0 # ks \<Rightarrow>
          if k0 = 0x62 then
            (case decode (format_hash ks) v of
               Inl e \<Rightarrow> Inl e
             | Inr index \<Rightarrow>
                 (case read_index decode records of
                    Inl e \<Rightarrow> Inl e
                  | Inr indexes \<Rightarrow> Inr (index # indexes)))
          else read_index decode records)"

text \<open>
  Lines 160 to 163. \<open>cache_files path\<close> is \<open>None\<close> when no file exists at the path and
  otherwise what \<open>pickle.load\<close> gives for it. The result is the local variable
  \<open>blockIndexes\<close>: \<open>None\<close> when the branch was not taken and the name is still unbound.
\<close>

type_synonym cache_files = "string \<Rightarrow> (error + DBBlockIndex list) option"

definition load_cache :: "cache_files \<Rightarrow> string option \<Rightarrow> error + DBBlockIndex list option" where
  "load_cache files cache =
     (case cache of
        None \<Rightarrow> Inr None
      | Some path \<Rightarrow>
          if path = [] then Inr None
          else (case files path of
                  None \<Rightarrow> Inr None
                | Some (Inl e) \<Rightarrow> Inl e
                | Some (Inr loaded) \<Rightarrow> Inr (Some loaded)))"

text \<open>
  Line 168, \<open>db.close()\<close>: the function never assigns \<open>db\<close> and the module has no
  global of that name.
\<close>

definition db_close :: "error + unit" where
  "db_close = Inl NameError"

text \<open>
  Lines 169 to 210, on the local variable \<open>blockIndexes\<close>: the sort, the write of the
  cache file (the second component of the result, \<open>None\<close> when nothing is written),
  the pruning.
\<close>

definition build_block_index_tail ::
  "header_decoder \<Rightarrow> files \<Rightarrow> cache_files \<Rightarrow> string option \<Rightarrow> DBBlockIndex list option \<Rightarrow>
   error + (DBBlockIndex list \<times> DBBlockIndex list option)"
where
  "build_block_index_tail hdr fs files cache blockIndexes =
     (case blockIndexes of
        None \<Rightarrow> Inl UnboundLocalError
      | Some unsorted \<Rightarrow>
          (let sorted_indexes = sort_key height unsorted;
               written = (case cache of
                            None \<Rightarrow> None
                          | Some path \<Rightarrow>
                              if path \<noteq> [] \<and> files path = None then Some sorted_indexes
                              else None)
           in case prune_orphans hdr fs sorted_indexes of
                Inl e \<Rightarrow> Inl e
              | Inr index \<Rightarrow> Inr (index, written)))"

text \<open>
  \<open>_build_block_index\<close>. \<open>self_blockIndexDb\<close> is the attribute \<open>self.blockIndexDb\<close>,
  \<open>None\<close> while it has not been assigned. The list read from the store is assigned to
  the attribute \<open>self.blockIndexes\<close>, not to the local variable that the rest of the
  function works on.
\<close>

definition build_block_index ::
  "index_decoder \<Rightarrow> header_decoder \<Rightarrow> files \<Rightarrow> cache_files \<Rightarrow> string option \<Rightarrow> store option \<Rightarrow>
   error + (DBBlockIndex list \<times> DBBlockIndex list option)"
where
  "build_block_index decode hdr fs files self_cache self_blockIndexDb =
     (case load_cache files self_cache of
        Inl e \<Rightarrow> Inl e
      | Inr blockIndexes \<Rightarrow>
          (case self_blockIndexDb of
             None \<Rightarrow> Inl AttributeError
           | Some records \<Rightarrow>
               (case read_index decode records of
                  Inl e \<Rightarrow> Inl e
                | Inr self_blockIndexes \<Rightarrow>
                    (case db_close of
                       Inl e \<Rightarrow> Inl e
                     | Inr u \<Rightarrow> build_block_index_tail hdr fs files self_cache blockIndexes))))"

text \<open>
  \<open>Blockchain.__init__\<close>: \<open>_build_block_index\<close> runs before \<open>self.blockIndexDb\<close> and
  \<open>self.txIndexDb\<close> are assigned. The result is the index the object retains.
\<close>

definition Blockchain_init ::
  "index_decoder \<Rightarrow> header_decoder \<Rightarrow> files \<Rightarrow> cache_files \<Rightarrow> string \<Rightarrow> string option \<Rightarrow>
   error + DBBlockIndex list"
where
  "Blockchain_init decode hdr fs files path cache =
     (case build_block_index decode hdr fs files cache None of
        Inl e \<Rightarrow> Inl e
      | Inr (index, written) \<Rightarrow> Inr index)"

section \<open>scanner.py\<close>

text \<open>
  How the call \<open>Blockchain(block_path, leveldb_path, cache=leveldb_cache_path)\<close> binds
  the parameters of \<open>__init__(self, path, cache=None)\<close>: the positional arguments in
  order, then the keyword \<open>cache\<close> (\<open>None\<close> below when the call gives no such
  keyword), which must not be bound already.
\<close>

fun bind_Blockchain_args ::
  "string option list \<Rightarrow> string option option \<Rightarrow> error + (string option \<times> string option)"
where
  "bind_Blockchain_args [path] None = Inr (path, None)"
| "bind_Blockchain_args [path] (Some cache) = Inr (path, cache)"
| "bind_Blockchain_args [path, cache] None = Inr (path, cache)"
| "bind_Blockchain_args args kw = Inl TypeError"

text \<open>
  The state of a \<open>Scanner\<close>: the index of its \<open>Blockchain\<close>, the generator
  \<open>self.blocks\<close> as the index entries it has not visited yet (none when it is
  exhausted), and \<open>self.selected_blocks\<close>, the heights appended from \<open>block.height\<close>.
\<close>

record Scanner =
  blockchain :: "DBBlockIndex list"
  blocks :: "DBBlockIndex list"
  selected_blocks :: "int option list option"

definition Scanner_init ::
  "index_decoder \<Rightarrow> header_decoder \<Rightarrow> files \<Rightarrow> cache_files \<Rightarrow> string \<Rightarrow> string \<Rightarrow> string option \<Rightarrow>
   error + Scanner"
where
  "Scanner_init decode hdr fs files block_path leveldb_path leveldb_cache_path =
     (case bind_Blockchain_args [Some block_path, Some leveldb_path] (Some leveldb_cache_path) of
        Inl e \<Rightarrow> Inl e
      | Inr (path, cache) \<Rightarrow>
          (case path of
             None \<Rightarrow> Inl TypeError
           | Some p \<Rightarrow>
               (case Blockchain_init decode hdr fs files p cache of
                  Inl e \<Rightarrow> Inl e
                | Inr index \<Rightarrow>
                    Inr \<lparr>blockchain = index, blocks = ordered_entries index 0 None,
                         selected_blocks = None\<rparr>)))"

text \<open>
  \<open>filter_blocks\<close>, consumed to its end. The loop pulls the next block out of
  \<open>self.blocks\<close> (which ends at an entry without location and dies with an exception of
  \<open>get_block\<close>), reads \<open>block.header.timestamp\<close> for the log line when
  \<open>n % 1000 == 0\<close> (the parameter \<open>timestamp\<close>; the header decoder is not among the
  sources and may raise), and tests the predicate. The result is the blocks yielded, the
  exception that ended the pass, what is left of \<open>self.blocks\<close>, and the selection.
\<close>

fun filter_blocks_loop ::
  "files \<Rightarrow> (Block \<Rightarrow> error + nat) \<Rightarrow> (Block \<Rightarrow> bool) \<Rightarrow> nat \<Rightarrow> DBBlockIndex list \<Rightarrow>
   int option list \<Rightarrow> Block list \<times> error option \<times> DBBlockIndex list \<times> int option list"
where
  "filter_blocks_loop fs timestamp flt n [] selected = ([], None, [], selected)"
| "filter_blocks_loop fs timestamp flt n (blkIdx # rest) selected =
     (if file_no blkIdx = - 1 \<or> data_pos blkIdx = - 1 then ([], None, [], selected)
      else
        (case get_block fs (file_no blkIdx) (data_pos blkIdx) of
           Inl e \<Rightarrow> ([], Some e, [], selected)
         | Inr raw \<Rightarrow>
             (let block = \<lparr>block_raw = raw, block_height = Some (height blkIdx)\<rparr>
              in case (if n mod 1000 = 0 then timestamp block else Inr 0) of
                   Inl e \<Rightarrow> ([], Some e, rest, selected)
                 | Inr t \<Rightarrow>
                     if flt block then
                       apfst ((#) block)
                         (filter_blocks_loop fs timestamp flt (n + 1) rest
                            (selected @ [block_height block]))
                     else filter_blocks_loop fs timestamp flt (n + 1) rest selected)))"

definition filter_blocks ::
  "files \<Rightarrow> (Block \<Rightarrow> error + nat) \<Rightarrow> (Block \<Rightarrow> bool) \<Rightarrow> Scanner \<Rightarrow>
   Block list \<times> error option \<times> Scanner"
where
  "filter_blocks fs timestamp flt s =
     (case filter_blocks_loop fs timestamp flt 0 (blocks s) [] of
        (yielded, err, rest, selected) \<Rightarrow>
          (yielded, err, s\<lparr>blocks := rest, selected_blocks := Some selected\<rparr>))"

text \<open>
  The replay branch of \<open>iterate_blocks\<close>: one \<open>get_block_by_height\<close> for each
  remembered height. A height that is \<open>None\<close> is no list index.
\<close>

fun replay_blocks :: "files \<Rightarrow> DBBlockIndex list \<Rightarrow> int option list \<Rightarrow> Block list \<times> error option" where
  "replay_blocks fs index [] = ([], None)"
| "replay_blocks fs index (remembered # heights) =
     (case (case remembered of
              None \<Rightarrow> Inl TypeError
            | Some h \<Rightarrow> get_block_by_height fs index h) of
        Inl e \<Rightarrow> ([], Some e)
      | Inr block \<Rightarrow> apfst ((#) block) (replay_blocks fs index heights))"

definition iterate_blocks ::
  "files \<Rightarrow> (Block \<Rightarrow> error + nat) \<Rightarrow> (Block \<Rightarrow> bool) \<Rightarrow> Scanner \<Rightarrow>
   Block list \<times> error option \<times> Scanner"
where
  "iterate_blocks fs timestamp flt s =
     (case selected_blocks s of
        None \<Rightarrow> filter_blocks fs timestamp flt s
      | Some heights \<Rightarrow>
          (case replay_blocks fs (blockchain s) heights of
             (yielded, err) \<Rightarrow> (yielded, err, s)))"

definition clear_block_filter :: "Scanner \<Rightarrow> Scanner" where
  "clear_block_filter s = s\<lparr>selected_blocks := None\<rparr>"

text \<open>The heights carried by a sequence of yielded blocks.\<close>

definition yielded_heights :: "Block list \<Rightarrow> int list" where
  "yielded_heights yielded = List.map_filter block_height yielded"


definition demo_file :: "byte list" where
  "demo_file = concat (map record_bytes
     [[0x61, 0x30], [0x62, 0x30], [0x63, 0x62], [0x64, 0x63], [0x65, 0x64], [0x66, 0x65],
      [0x67, 0x66]])"

definition demo_fs :: files where
  "demo_fs =
     \<lparr>content = (\<lambda>n. if n = 0 then Some demo_file else None),
      seek_max = 9223372036854775807\<rparr>"

definition demo_index :: "DBBlockIndex list" where
  "demo_index =
     [\<lparr>hash = ''a'', height = 5, file_no = 0, data_pos = 8\<rparr>,
      \<lparr>hash = ''b'', height = 5, file_no = 0, data_pos = 18\<rparr>,
      \<lparr>hash = ''c'', height = 6, file_no = 0, data_pos = 28\<rparr>,
      \<lparr>hash = ''d'', height = 7, file_no = 0, data_pos = 38\<rparr>,
      \<lparr>hash = ''e'', height = 8, file_no = 0, data_pos = 48\<rparr>,
      \<lparr>hash = ''f'', height = 9, file_no = 0, data_pos = 58\<rparr>,
      \<lparr>hash = ''g'', height = 10, file_no = 0, data_pos = 68\<rparr>]"

text \<open>The same blocks \<open>a\<close> and \<open>c\<close> with an entry between them that has no location.\<close>

definition gap_index :: "DBBlockIndex list" where
  "gap_index =
     [\<lparr>hash = ''a'', height = 5, file_no = 0, data_pos = 8\<rparr>,
      \<lparr>hash = ''u'', height = 6, file_no = - 1, data_pos = - 1\<rparr>,
      \<lparr>hash = ''c'', height = 6, file_no = 0, data_pos = 28\<rparr>]"

text \<open>
  An index whose only entry has a location, in the block file above, with a data offset of
  \<open>2 ^ 63 + 4\<close>.
\<close>

definition far_index :: "DBBlockIndex list" where
  "far_index = [\<lparr>hash = ''a'', height = 0, file_no = 0, data_pos = 9223372036854775812\<rparr>]"

text \<open>
  A transaction index with two records over the block file above, both pointing at block
  \<open>b\<close> (file 0, offset 18): the value of the first is three varints (0, 18, 2), that of
  the second four (0, 18, 7, 5). \<open>handed\<close> stands for \<open>Block.get_transaction\<close> and
  reports what it was called with.
\<close>

definition demo_txdb :: "byte list \<rightharpoonup> byte list" where
  "demo_txdb =
     [[0x74, 0x0b, 0x0a] \<mapsto> [0x00, 0x12, 0x02],
      [0x74, 0x0d, 0x0c] \<mapsto> [0x00, 0x12, 0x07, 0x05]]"

definition handed :: "Block \<Rightarrow> nat \<times> nat \<Rightarrow> error + (byte list \<times> (nat \<times> nat))" where
  "handed blk txOffs = Inr (block_raw blk, txOffs)"

text \<open>
  Two scanners over the block file above, freshly built: one over an index in which every
  entry sits at the position of its height, one over an index whose only entry has height
  5. \<open>no_timestamp\<close> stands for a header decoder that never raises.
\<close>

definition dense_index :: "DBBlockIndex list" where
  "dense_index =
     [\<lparr>hash = ''a'', height = 0, file_no = 0, data_pos = 8\<rparr>,
      \<lparr>hash = ''b'', height = 1, file_no = 0, data_pos = 18\<rparr>]"

definition fresh_scanner :: "DBBlockIndex list \<Rightarrow> Scanner" where
  "fresh_scanner index =
     \<lparr>blockchain = index, blocks = ordered_entries index 0 None, selected_blocks = None\<rparr>"

definition no_timestamp :: "Block \<Rightarrow> error + nat" where
  "no_timestamp block = Inr 0"

section \<open>Properties of the varint decoder\<close>

lemma low7_mod: "unat ((w::byte) AND 0x7f) = unat w mod 128"
proof -
  have "(0x7f::byte) = mask 7" by (simp add: mask_eq_exp_minus_1)
  then have "w AND 0x7f = take_bit 7 w" by (simp add: take_bit_eq_mask)
  then have "unat (w AND 0x7f) = unat (take_bit 7 w)" by (rule arg_cong)
  also have "\<dots> = take_bit 7 (unat w)" by (rule unsigned_take_bit_eq)
  also have "\<dots> = unat w mod 128" by (simp add: take_bit_eq_mod)
  finally show ?thesis .
qed

lemma high_bit_clear_iff: "((w::byte) AND 0x80 = 0) = (unat w < 128)"
proof -
  have "(0x80::byte) = 2 ^ 7" by simp
  then have "(w AND 0x80 = 0) = (\<not> bit w 7)"
    by (simp only: and_exp_eq_0_iff_not_bit)
  also have "bit w 7 = bit (unat w) 7" by (simp add: bit_unsigned_iff)
  also have "\<dots> = odd (unat w div 128)" by (simp add: bit_iff_odd)
  also have "(\<not> odd (unat w div 128)) = (unat w < 128)"
  proof -
    have lt: "unat w < 256" using unsigned_less [of w] by simp
    show ?thesis
    proof (cases "unat w < 128")
      case True
      then show ?thesis by simp
    next
      case False
      then have "unat w div 128 = 1" using lt by (intro div_nat_eqI) simp_all
      then show ?thesis using False by simp
    qed
  qed
  finally show ?thesis .
qed

lemma unat_last_byte: "v < 128 \<Longrightarrow> unat (of_nat v :: byte) = v"
  by (simp add: unat_of_nat)

lemma unat_cont_byte: "v < 128 \<Longrightarrow> unat (of_nat (v + 128) :: byte) = v + 128"
  by (simp only: unat_of_nat) simp

lemma split7_bits: "take_bit 7 v OR push_bit 7 (drop_bit 7 v) = (v::nat)"
proof (rule bit_eqI)
  fix n
  show "bit (take_bit 7 v OR push_bit 7 (drop_bit 7 v)) n = bit v n"
    by (cases "n < 7") (simp_all add: bit_simps)
qed

lemma split7: "(v mod 128) OR push_bit 7 (v div 128) = (v::nat)"
  using split7_bits [of v] by (simp add: take_bit_eq_mod drop_bit_eq_div)

lemma decode_encode_loop:
  "decode_varint_loop (encode_varint v @ rest) len shift result =
     Inr (result OR push_bit shift v, len + nbytes v)"
proof (induction v arbitrary: len shift result rule: encode_varint.induct)
  case (1 v)
  show ?case
  proof (cases "v < 128")
    case True
    then show ?thesis
      by (subst encode_varint.simps, subst nbytes.simps)
         (simp add: high_bit_clear_iff low7_mod unat_last_byte)
  next
    case False
    have m: "v mod 128 < 128" by simp
    have hb: "((of_nat (v mod 128 + 128) :: byte) AND 0x80 = 0) = False"
      by (simp only: high_bit_clear_iff unat_cont_byte [OF m]) simp
    have lo: "unat ((of_nat (v mod 128 + 128) :: byte) AND 0x7f) = v mod 128"
      by (simp only: low7_mod unat_cont_byte [OF m]) simp
    have "(result OR push_bit shift (v mod 128)) OR push_bit (shift + 7) (v div 128)
          = result OR push_bit shift (v mod 128 OR push_bit 7 (v div 128))"
      by (simp add: push_bit_or push_bit_add or.assoc)
    then have or_eq: "(result OR push_bit shift (v mod 128)) OR push_bit (shift + 7) (v div 128)
          = result OR push_bit shift v"
      by (simp only: split7)
    have enc: "encode_varint v = of_nat (v mod 128 + 128) # encode_varint (v div 128)"
      using False by (subst encode_varint.simps) simp
    have nb: "nbytes v = Suc (nbytes (v div 128))"
      using False by (subst nbytes.simps) simp
    show ?thesis
      apply (subst enc)
      apply (simp only: append_Cons decode_varint_loop.simps Let_def hb lo if_False)
      apply (subst "1.IH" [OF False])
      apply (simp only: or_eq nb)
      apply simp
      done
  qed
qed

lemma bits_shift: "2 ^ k \<le> v \<Longrightarrow> bits v = k + bits (v div 2 ^ k)"
proof (induction k arbitrary: v)
  case 0
  then show ?case by simp
next
  case (Suc k)
  have "(0::nat) < 2 ^ Suc k" by simp
  with Suc.prems have "v \<noteq> 0" by linarith
  then have "bits v = Suc (bits (v div 2))" by (subst bits.simps) simp
  moreover have "2 ^ k \<le> v div 2" using Suc.prems by simp
  then have "bits (v div 2) = k + bits (v div 2 div 2 ^ k)" by (rule Suc.IH)
  moreover have "v div 2 div 2 ^ k = v div 2 ^ Suc k" by (simp add: div_mult2_eq)
  ultimately show ?case by simp
qed

lemma bits_le: "v < 2 ^ k \<Longrightarrow> bits v \<le> k"
proof (induction k arbitrary: v)
  case 0
  then show ?case by (simp add: bits.simps)
next
  case (Suc k)
  show ?case
  proof (cases "v = 0")
    case True then show ?thesis by (simp add: bits.simps)
  next
    case False
    have "v div 2 < 2 ^ k" using Suc.prems by simp
    then have "bits (v div 2) \<le> k" by (rule Suc.IH)
    then show ?thesis using False by (subst bits.simps) simp
  qed
qed

lemma bits_pos: "v \<noteq> 0 \<Longrightarrow> 0 < bits v"
  by (subst bits.simps) simp

lemma bits_upper: "v < 2 ^ bits v"
proof (induction v rule: bits.induct)
  case (1 n)
  show ?case
  proof (cases "n = 0")
    case True then show ?thesis by simp
  next
    case False
    then have "n div 2 < 2 ^ bits (n div 2)" by (rule 1)
    then have "n < 2 * 2 ^ bits (n div 2)" by linarith
    then show ?thesis using False by (subst bits.simps) simp
  qed
qed

lemma bits_lower: "v \<noteq> 0 \<Longrightarrow> 2 ^ (bits v - 1) \<le> v"
proof (induction v rule: bits.induct)
  case (1 n)
  show ?case
  proof (cases "n div 2 = 0")
    case True
    then have "n = 1" using "1.prems" by presburger
    then show ?thesis by (simp add: bits.simps)
  next
    case False
    have ih: "2 ^ (bits (n div 2) - 1) \<le> n div 2" by (rule "1.IH" [OF "1.prems" False])
    have b: "bits n = Suc (bits (n div 2))" using "1.prems" by (subst bits.simps) simp
    have "0 < bits (n div 2)" using False by (rule bits_pos)
    then have "(2::nat) ^ (bits n - 1) = 2 * 2 ^ (bits (n div 2) - 1)"
      using b by (cases "bits (n div 2)") simp_all
    then show ?thesis using ih by linarith
  qed
qed

lemma nbytes_bits: "nbytes v = max 1 ((bits v + 6) div 7)"
proof (induction v rule: nbytes.induct)
  case (1 v)
  show ?case
  proof (cases "v < 128")
    case True
    then have "bits v \<le> 7" using bits_le [of v 7] by simp
    then have "(bits v + 6) div 7 \<le> 1" by simp
    then show ?thesis using True by (subst nbytes.simps) simp
  next
    case False
    then have ih: "nbytes (v div 128) = max 1 ((bits (v div 128) + 6) div 7)" by (rule 1)
    have "2 ^ 7 \<le> v" using False by simp
    then have b: "bits v = 7 + bits (v div 128)" using bits_shift [of 7 v] by simp
    have "v div 128 \<noteq> 0" using False by simp
    then have "0 < bits (v div 128)" by (rule bits_pos)
    then have "1 \<le> (bits (v div 128) + 6) div 7" by simp
    then have "nbytes (v div 128) = (bits (v div 128) + 6) div 7" using ih by simp
    moreover have "nbytes v = Suc (nbytes (v div 128))" using False by (subst nbytes.simps) simp
    ultimately have "nbytes v = Suc ((bits (v div 128) + 6) div 7)" by simp
    also have "\<dots> = (bits v + 6) div 7" unfolding b by presburger
    finally show ?thesis using \<open>1 \<le> (bits (v div 128) + 6) div 7\<close> b by simp
  qed
qed

lemma decode_prefix:
  "\<forall>b\<in>set bs. b AND 0x80 \<noteq> 0 \<Longrightarrow> t AND 0x80 = 0 \<Longrightarrow>
   decode_varint_loop (bs @ t # rest) len (7 * k) result =
     Inr (result OR or_low7 k (bs @ [t]), len + length bs + 1)"
proof (induction bs arbitrary: len k result)
  case Nil
  then show ?case by simp
next
  case (Cons b bs)
  have hb: "b AND 0x80 \<noteq> 0" using Cons.prems(1) by simp
  have rest: "\<forall>b\<in>set bs. b AND 0x80 \<noteq> 0" using Cons.prems(1) by simp
  have s: "7 * k + 7 = 7 * (k + 1)" by simp
  show ?case
    using hb Cons.IH [OF rest Cons.prems(2), of "len + 1" "k + 1"]
    by (simp only: append_Cons decode_varint_loop.simps Let_def s or_low7.simps)
       (simp add: or.assoc)
qed

text \<open>
  C8. Decoding the base-128 encoding of any non-negative \<open>V\<close> (so in particular of every
  \<open>V\<close> up to \<open>2 ^ 35\<close>) returns \<open>V\<close> with the byte count \<open>ceil (bits V / 7)\<close>, at
  least 1. On any input, the decoder consumes bytes up to and including the first one whose
  high bit is clear, OR-s the low seven bits of the \<open>k\<close>-th of them in at bit offset
  \<open>7 * k\<close>, and returns that value with the number of bytes consumed.
\<close>

theorem decode_varint_roundtrip:
  "decode_varint (encode_varint V) = Inr (V, max 1 ((bits V + 6) div 7)) \<and>
   ((\<forall>b\<in>set bs. b AND 0x80 \<noteq> 0) \<and> t AND 0x80 = 0 \<longrightarrow>
      decode_varint (bs @ t # rest) = Inr (or_low7 0 (bs @ [t]), length bs + 1))"
proof (intro conjI impI)
  show "decode_varint (encode_varint V) = Inr (V, max 1 ((bits V + 6) div 7))"
    using decode_encode_loop [of V "[]" 0 0 0]
    by (simp add: decode_varint_def nbytes_bits)
next
  assume h: "(\<forall>b\<in>set bs. b AND 0x80 \<noteq> 0) \<and> t AND 0x80 = 0"
  then show "decode_varint (bs @ t # rest) = Inr (or_low7 0 (bs @ [t]), length bs + 1)"
    using decode_prefix [of bs t rest 0 0 0]
    by (simp add: decode_varint_def)
qed

theorem decode_varint_roundtrip_witness:
  "(0xAC::byte) AND 0x80 \<noteq> 0 \<and> (0x02::byte) AND 0x80 = 0 \<and>
   decode_varint (encode_varint 34359738368) = Inr (34359738368, 6) \<and>
   decode_varint [0xAC, 0x02, 0xFF] = Inr (300, 2)"
proof -
  have h: "(\<forall>b\<in>set [0xAC::byte]. b AND 0x80 \<noteq> 0) \<and> (0x02::byte) AND 0x80 = 0"
    by simp
  have b: "max 1 ((bits 34359738368 + 6) div 7) = 6"
    by (simp add: bits.simps)
  have v: "or_low7 0 ([0xAC] @ [0x02]) = 300"
    by simp
  show ?thesis
    using h b v decode_varint_roundtrip [of 34359738368 "[0xAC]" "0x02" "[0xFF]"]
    by simp
qed

section \<open>Properties of the linear block-file scan\<close>

lemma slice_mid: "bytes_slice (a @ b @ c) (length a) (length a + length b) = b"
  by (simp add: bytes_slice_def)

lemma slice_mid': "n = length a \<Longrightarrow> m = length a + length b \<Longrightarrow> bytes_slice (a @ b @ c) n m = b"
  by (simp add: bytes_slice_def)

lemma length_le32 [simp]: "length (le32 n) = 4"
  by (simp add: le32_def)

lemma length_magic [simp]: "length BITCOIN_CONSTANT = 4"
  by (simp add: BITCOIN_CONSTANT_def)

lemma unat_byte_of_nat: "unat (of_nat n :: byte) = n mod 256"
  by (simp add: unat_of_nat)

lemma unpack_le32: "n < 2 ^ 32 \<Longrightarrow> unpack_u32 (le32 n) = Inr n"
proof -
  assume n: "n < 2 ^ 32"
  have "n mod 256 + 256 * (n div 256 mod 256) + 65536 * (n div 65536 mod 256)
          + 16777216 * (n div 16777216 mod 256) = n"
  proof -
    have a: "n div 16777216 mod 256 = n div 16777216" using n by simp
    have b1: "n div 16777216 = n div 65536 div 256"
      using div_mult2_eq [of n 65536 256] by simp
    have b: "n div 65536 = 256 * (n div 16777216) + n div 65536 mod 256"
      unfolding b1 by simp
    have c1: "n div 65536 = n div 256 div 256"
      using div_mult2_eq [of n 256 256] by simp
    have c: "n div 256 = 256 * (n div 65536) + n div 256 mod 256"
      unfolding c1 by simp
    have d: "n = 256 * (n div 256) + n mod 256" by simp
    show ?thesis using a b c d by linarith
  qed
  moreover have "n div 16777216 mod 256 = n div 16777216" using n by simp
  ultimately show ?thesis by (simp add: le32_def unat_byte_of_nat)
qed


lemma scan_records_tail:
  "\<forall>p\<in>set ps. length p < 2 ^ 32 \<Longrightarrow>
   get_blocks_loop (pre @ concat (map record_bytes ps) @ tail) (length pre) =
     apfst ((@) ps)
       (get_blocks_loop (pre @ concat (map record_bytes ps) @ tail)
          (length pre + length (concat (map record_bytes ps))))"
proof (induction ps arbitrary: pre)
  case Nil
  show ?case by (cases "get_blocks_loop (pre @ tail) (length pre)") simp
next
  case (Cons p ps)
  let ?tail = "concat (map record_bytes ps) @ tail"
  let ?raw = "pre @ concat (map record_bytes (p # ps)) @ tail"
  have raw: "?raw = pre @ BITCOIN_CONSTANT @ le32 (length p) @ p @ ?tail"
    by (simp add: record_bytes_def)
  have p: "length p < 2 ^ 32" using Cons.prems by simp
  have g: "int (length pre) < int (length ?raw) - 4"
    by (simp add: record_bytes_def)
  have m: "bytes_slice ?raw (length pre) (length pre + 4) = BITCOIN_CONSTANT"
    unfolding raw by (rule slice_mid') simp_all
  have l: "bytes_slice ?raw (length pre + 4) (length pre + 4 + 4) = le32 (length p)"
  proof -
    have "bytes_slice ((pre @ BITCOIN_CONSTANT) @ le32 (length p) @ (p @ ?tail))
            (length pre + 4) (length pre + 4 + 4) = le32 (length p)"
      by (rule slice_mid') simp_all
    then show ?thesis unfolding raw by simp
  qed
  have y: "bytes_slice ?raw (length pre + 4 + (4 + length p) - length p) (length pre + 4 + (4 + length p)) = p"
  proof -
    have "bytes_slice ((pre @ BITCOIN_CONSTANT @ le32 (length p)) @ p @ ?tail)
            (length pre + 4 + (4 + length p) - length p) (length pre + 4 + (4 + length p)) = p"
      by (rule slice_mid') simp_all
    then show ?thesis unfolding raw by simp
  qed
  have ih: "get_blocks_loop ?raw (length pre + 4 + (4 + length p)) =
              apfst ((@) ps) (get_blocks_loop ?raw (length pre + length (concat (map record_bytes (p # ps)))))"
  proof -
    have "get_blocks_loop ((pre @ record_bytes p) @ concat (map record_bytes ps) @ tail) (length (pre @ record_bytes p)) =
            apfst ((@) ps) (get_blocks_loop ((pre @ record_bytes p) @ concat (map record_bytes ps) @ tail)
              (length (pre @ record_bytes p) + length (concat (map record_bytes ps))))"
      using Cons.prems by (intro Cons.IH) simp
    then show ?thesis by (simp add: record_bytes_def add.assoc)
  qed
  show ?case
    by (subst get_blocks_loop.simps, simp only: g m l y ih unpack_le32 [OF p] if_True sum.case,
        cases "get_blocks_loop ?raw (length pre + length (concat (map record_bytes (p # ps))))", simp)
qed

lemma scan_at_end: "get_blocks_loop raw_data (length raw_data) = ([], None)"
  by (subst get_blocks_loop.simps) simp

lemma scan_records:
  assumes "\<forall>p\<in>set ps. length p < 2 ^ 32"
  shows "get_blocks_loop (concat (map record_bytes ps)) 0 = (ps, None)"
  using scan_records_tail [OF assms, of "[]" "[]"] scan_at_end [of "concat (map record_bytes ps)"]
  by simp

lemma record_bytes_nonempty: "record_bytes p \<noteq> []"
  by (simp add: record_bytes_def BITCOIN_CONSTANT_def)

lemma scan_truncated:
  assumes g: "int offset < int (length raw_data) - 4"
    and m: "bytes_slice raw_data offset (offset + 4) = BITCOIN_CONSTANT"
    and u: "unpack_u32 (bytes_slice raw_data (offset + 4) (offset + 4 + 4)) = Inr sz"
    and r: "length raw_data - (offset + 8) < sz"
  shows "get_blocks_loop raw_data offset = ([drop (offset + 8) raw_data], None)"
proof -
  have past: "\<not> int (offset + 4 + (4 + sz)) < int (length raw_data) - 4" using r by simp
  have stop: "get_blocks_loop raw_data (offset + 4 + (4 + sz)) = ([], None)"
    using past by (subst get_blocks_loop.simps) simp
  have y: "bytes_slice raw_data (offset + 4 + (4 + sz) - sz) (offset + 4 + (4 + sz)) = drop (offset + 8) raw_data"
    using r by (simp add: bytes_slice_def add.assoc)
  show ?thesis
    by (subst get_blocks_loop.simps, simp only: g m u y stop if_True sum.case, simp)
qed

text \<open>
  C6. A file made of \<open>N\<close> well-formed records (magic marker, little-endian length,
  payload) is scanned into exactly the \<open>N\<close> payloads, byte for byte and in file order,
  and for \<open>N \<ge> 1\<close> the scan ends without an exception. Where the next four bytes are not
  the magic marker the scan moves on by one byte, and with fewer than four bytes left it
  has ended.
\<close>

theorem get_blocks_wellformed:
  "((\<forall>p\<in>set payloads. length p < 2 ^ 32) \<longrightarrow>
      fst (get_blocks (concat (map record_bytes payloads))) = payloads \<and>
      (payloads \<noteq> [] \<longrightarrow> snd (get_blocks (concat (map record_bytes payloads))) = None)) \<and>
   (int offset < int (length raw_data) - 4 \<and>
    bytes_slice raw_data offset (offset + 4) \<noteq> BITCOIN_CONSTANT \<longrightarrow>
      get_blocks_loop raw_data offset = get_blocks_loop raw_data (offset + 1)) \<and>
   (length raw_data - offset < 4 \<longrightarrow> get_blocks_loop raw_data offset = ([], None))"
proof (intro conjI impI)
  assume a: "\<forall>p\<in>set payloads. length p < 2 ^ 32"
  show "fst (get_blocks (concat (map record_bytes payloads))) = payloads"
    using scan_records [OF a] by (cases payloads) (simp_all add: get_blocks_def record_bytes_nonempty)
  assume "payloads \<noteq> []"
  then have "concat (map record_bytes payloads) \<noteq> []"
    by (cases payloads) (simp_all add: record_bytes_nonempty)
  then show "snd (get_blocks (concat (map record_bytes payloads))) = None"
    using scan_records [OF a] by (simp add: get_blocks_def)
next
  assume "int offset < int (length raw_data) - 4 \<and>
    bytes_slice raw_data offset (offset + 4) \<noteq> BITCOIN_CONSTANT"
  then show "get_blocks_loop raw_data offset = get_blocks_loop raw_data (offset + 1)"
    by (subst get_blocks_loop.simps) simp
next
  assume "length raw_data - offset < 4"
  then have "\<not> int offset < int (length raw_data) - 4" by linarith
  then show "get_blocks_loop raw_data offset = ([], None)"
    by (subst get_blocks_loop.simps) simp
qed

theorem get_blocks_wellformed_witness:
  "fst (get_blocks (concat (map record_bytes [[0x01, 0x02], []]))) = [[0x01, 0x02], []] \<and>
   snd (get_blocks (concat (map record_bytes [[0x01, 0x02], []]))) = None \<and>
   get_blocks_loop [0, 0, 0, 0, 0, 0] 0 = get_blocks_loop [0, 0, 0, 0, 0, 0] (0 + 1) \<and>
   get_blocks_loop [0, 0, 0] 0 = ([], None)"
proof -
  have a: "\<forall>p\<in>set [[0x01, 0x02], []::byte list]. length p < 2 ^ 32" by simp
  have b: "int 0 < int (length [0, 0, 0, 0, 0, 0::byte]) - 4 \<and>
           bytes_slice [0, 0, 0, 0, 0, 0::byte] 0 (0 + 4) \<noteq> BITCOIN_CONSTANT"
    by (simp add: bytes_slice_def BITCOIN_CONSTANT_def)
  have c: "length [0, 0, 0::byte] - 0 < 4" by simp
  show ?thesis
    using a b c
      get_blocks_wellformed [of "[[0x01, 0x02], []]" 0 "[0, 0, 0, 0, 0, 0]"]
      get_blocks_wellformed [of "[]" 0 "[0, 0, 0]"]
    by simp
qed

text \<open>
  C10. When the length read after a magic marker exceeds the bytes left after the length
  field, the scan raises nothing: it yields the bytes that are left (fewer than the
  declared length, possibly none) as the last record and ends. The second part is the same
  fact for a whole file: well-formed records followed by one truncated record.
\<close>

theorem get_blocks_truncated_record:
  "(int offset < int (length raw_data) - 4 \<and>
    bytes_slice raw_data offset (offset + 4) = BITCOIN_CONSTANT \<and>
    unpack_u32 (bytes_slice raw_data (offset + 4) (offset + 4 + 4)) = Inr sz \<and>
    length raw_data - (offset + 8) < sz \<longrightarrow>
      get_blocks_loop raw_data offset = ([drop (offset + 8) raw_data], None) \<and>
      length (drop (offset + 8) raw_data) < sz) \<and>
   ((\<forall>p\<in>set payloads. length p < 2 ^ 32) \<and> length rest < sz \<and> sz < 2 ^ 32 \<longrightarrow>
      get_blocks (concat (map record_bytes payloads) @ BITCOIN_CONSTANT @ le32 sz @ rest)
        = (payloads @ [rest], None))"
proof (intro conjI impI)
  assume h: "int offset < int (length raw_data) - 4 \<and>
    bytes_slice raw_data offset (offset + 4) = BITCOIN_CONSTANT \<and>
    unpack_u32 (bytes_slice raw_data (offset + 4) (offset + 4 + 4)) = Inr sz \<and>
    length raw_data - (offset + 8) < sz"
  then have g: "int offset < int (length raw_data) - 4"
    and m: "bytes_slice raw_data offset (offset + 4) = BITCOIN_CONSTANT"
    and u: "unpack_u32 (bytes_slice raw_data (offset + 4) (offset + 4 + 4)) = Inr sz"
    and r: "length raw_data - (offset + 8) < sz"
    by blast+
  show "get_blocks_loop raw_data offset = ([drop (offset + 8) raw_data], None)"
    using g m u r by (rule scan_truncated)
  show "length (drop (offset + 8) raw_data) < sz" using r by simp
next
  assume h: "(\<forall>p\<in>set payloads. length p < 2 ^ 32) \<and> length rest < sz \<and> sz < 2 ^ 32"
  let ?pre = "concat (map record_bytes payloads)"
  let ?t = "BITCOIN_CONSTANT @ le32 sz @ rest"
  let ?raw = "?pre @ ?t"
  have a: "\<forall>p\<in>set payloads. length p < 2 ^ 32" using h by simp
  have sz: "sz < 2 ^ 32" using h by simp
  have ne: "?raw \<noteq> []" by (simp add: BITCOIN_CONSTANT_def)
  have g: "int (length ?pre) < int (length ?raw) - 4" by simp
  have m: "bytes_slice ?raw (length ?pre) (length ?pre + 4) = BITCOIN_CONSTANT"
    by (rule slice_mid') simp_all
  have l: "bytes_slice ?raw (length ?pre + 4) (length ?pre + 4 + 4) = le32 sz"
  proof -
    have "bytes_slice ((?pre @ BITCOIN_CONSTANT) @ le32 sz @ rest) (length ?pre + 4) (length ?pre + 4 + 4) = le32 sz"
      by (rule slice_mid') simp_all
    then show ?thesis by simp
  qed
  have r: "length ?raw - (length ?pre + 8) < sz" using h by simp
  have d: "drop (length ?pre + 8) ?raw = rest" by simp
  have "get_blocks_loop ?raw (length ?pre) = ([rest], None)"
    using scan_truncated [OF g m _ r, unfolded l, OF unpack_le32 [OF sz]] d by simp
  then have "get_blocks_loop ?raw 0 = (payloads @ [rest], None)"
    using scan_records_tail [OF a, of "[]" ?t] by simp
  then show "get_blocks ?raw = (payloads @ [rest], None)"
    using ne unfolding get_blocks_def by simp
qed

theorem get_blocks_truncated_record_witness:
  "get_blocks_loop [0xf9, 0xbe, 0xb4, 0xd9, 5, 0, 0, 0, 7] 0 = ([[7]], None) \<and>
   get_blocks_loop [0xf9, 0xbe, 0xb4, 0xd9, 1, 0, 0, 0] 0 = ([[]], None) \<and>
   get_blocks (concat (map record_bytes [[1]]) @ BITCOIN_CONSTANT @ le32 5 @ [7])
     = ([[1], [7]], None)"
proof -
  have a: "int 0 < int (length [0xf9, 0xbe, 0xb4, 0xd9, 5, 0, 0, 0, 7::byte]) - 4 \<and>
      bytes_slice [0xf9, 0xbe, 0xb4, 0xd9, 5, 0, 0, 0, 7::byte] 0 (0 + 4) = BITCOIN_CONSTANT \<and>
      unpack_u32 (bytes_slice [0xf9, 0xbe, 0xb4, 0xd9, 5, 0, 0, 0, 7::byte] (0 + 4) (0 + 4 + 4)) = Inr 5 \<and>
      length [0xf9, 0xbe, 0xb4, 0xd9, 5, 0, 0, 0, 7::byte] - (0 + 8) < 5"
    by (simp add: bytes_slice_def BITCOIN_CONSTANT_def)
  have b: "int 0 < int (length [0xf9, 0xbe, 0xb4, 0xd9, 1, 0, 0, 0::byte]) - 4 \<and>
      bytes_slice [0xf9, 0xbe, 0xb4, 0xd9, 1, 0, 0, 0::byte] 0 (0 + 4) = BITCOIN_CONSTANT \<and>
      unpack_u32 (bytes_slice [0xf9, 0xbe, 0xb4, 0xd9, 1, 0, 0, 0::byte] (0 + 4) (0 + 4 + 4)) = Inr 1 \<and>
      length [0xf9, 0xbe, 0xb4, 0xd9, 1, 0, 0, 0::byte] - (0 + 8) < 1"
    by (simp add: bytes_slice_def BITCOIN_CONSTANT_def)
  have c: "(\<forall>p\<in>set [[1::byte]]. length p < 2 ^ 32) \<and> length [7::byte] < 5 \<and> (5::nat) < 2 ^ 32"
    by simp
  have r1: "get_blocks_loop [0xf9, 0xbe, 0xb4, 0xd9, 5, 0, 0, 0, 7] 0 = ([[7]], None)"
    using a get_blocks_truncated_record [of 0 "[0xf9, 0xbe, 0xb4, 0xd9, 5, 0, 0, 0, 7]" 5 "[]" "[]"]
    by simp
  have r2: "get_blocks_loop [0xf9, 0xbe, 0xb4, 0xd9, 1, 0, 0, 0] 0 = ([[]], None)"
    using b get_blocks_truncated_record [of 0 "[0xf9, 0xbe, 0xb4, 0xd9, 1, 0, 0, 0]" 1 "[]" "[]"]
    by simp
  have r3: "get_blocks (concat (map record_bytes [[1]]) @ BITCOIN_CONSTANT @ le32 5 @ [7])
     = ([[1], [7]], None)"
    using c get_blocks_truncated_record [of 0 "[]" 5 "[[1]]" "[7]"]
    by simp
  show ?thesis using r1 r2 r3 by simp
qed

section \<open>Properties of orphan pruning\<close>














lemma demo_file_eq: "demo_file =
  [249, 190, 180, 217, 2, 0, 0, 0, 97, 48, 249, 190, 180, 217, 2, 0, 0, 0,
  98, 48, 249, 190, 180, 217, 2, 0, 0, 0, 99, 98, 249, 190, 180, 217, 2, 0,
  0, 0, 100, 99, 249, 190, 180, 217, 2, 0, 0, 0, 101, 100, 249, 190, 180,
  217, 2, 0, 0, 0, 102, 101, 249, 190, 180, 217, 2, 0, 0, 0, 103, 102]"
  by (simp add: demo_file_def record_bytes_def le32_def BITCOIN_CONSTANT_def)

lemma demo_blocks:
  "get_block demo_fs 0 8 = Inr [0x61, 0x30]"
  "get_block demo_fs 0 18 = Inr [0x62, 0x30]"
  "get_block demo_fs 0 28 = Inr [0x63, 0x62]"
  "get_block demo_fs 0 38 = Inr [0x64, 0x63]"
  "get_block demo_fs 0 48 = Inr [0x65, 0x64]"
  "get_block demo_fs 0 58 = Inr [0x66, 0x65]"
  "get_block demo_fs 0 68 = Inr [0x67, 0x66]"
  by (simp_all add: get_block_def file_seek_def fits_off_t_def demo_fs_def demo_file_eq
        bytes_slice_def)








lemma extend_chain_nonempty: "c \<noteq> [] \<Longrightarrow> extend_chain h prev c \<noteq> []"
  by (simp add: extend_chain_def)



















section \<open>Properties of the lookup by height\<close>

lemma unpack_u32_error: "unpack_u32 data = Inl e \<Longrightarrow> e = StructError"
  by (induction data rule: unpack_u32.induct) simp_all

lemma file_seek_ValueError_iff: "(file_seek fs pos = Inl ValueError) = (\<not> fits_off_t pos)"
  by (simp add: file_seek_def)

lemma get_block_ValueError_iff:
  "(get_block fs f off = Inl ValueError) = (content fs f \<noteq> None \<and> \<not> fits_off_t (off - 4))"
proof (cases "content fs f")
  case None
  then show ?thesis by (simp add: get_block_def)
next
  case (Some bytes)
  show ?thesis
  proof (cases "file_seek fs (off - 4)")
    case (Inl e)
    then show ?thesis
      using Some file_seek_ValueError_iff [of fs "off - 4"] by (simp add: get_block_def)
  next
    case (Inr pos)
    then have "fits_off_t (off - 4)"
      using file_seek_ValueError_iff [of fs "off - 4"] by auto
    then show ?thesis
      using Some Inr by (auto simp: get_block_def split: sum.splits dest: unpack_u32_error)
  qed
qed

text \<open>
  C9, as the code has it. The height given to the lookup selects the entry at that
  position of the index, whatever the entry's own height field says. With the selected
  entry \<open>e\<close>, the lookup fails with \<open>ValueError\<close> ("Block not on disk") whenever the file
  number or the data offset of \<open>e\<close> is \<open>-1\<close>; otherwise its result is what the
  direct-offset fetch at the location of \<open>e\<close> gives: the block built from the bytes
  fetched, with the height of \<open>e\<close>, or the exception of the fetch. That exception is a
  \<open>ValueError\<close> too when the block file exists and the data offset less 4 does not fit a
  file offset, so the lookup fails with \<open>ValueError\<close> exactly in these cases.
\<close>

theorem get_block_by_height_positional:
  "(py_index blockIndexes h = Inr e \<longrightarrow>
      (file_no e = - 1 \<or> data_pos e = - 1 \<longrightarrow>
         get_block_by_height fs blockIndexes h = Inl ValueError) \<and>
      (\<not> (file_no e = - 1 \<or> data_pos e = - 1) \<longrightarrow>
         get_block_by_height fs blockIndexes h =
           map_sum id (\<lambda>raw. \<lparr>block_raw = raw, block_height = Some (height e)\<rparr>)
             (get_block fs (file_no e) (data_pos e))) \<and>
      ((get_block_by_height fs blockIndexes h = Inl ValueError) =
         (file_no e = - 1 \<or> data_pos e = - 1 \<or>
          (content fs (file_no e) \<noteq> None \<and> \<not> fits_off_t (data_pos e - 4))))) \<and>
   (0 \<le> h \<and> h < int (length blockIndexes) \<longrightarrow>
      py_index blockIndexes h = Inr (blockIndexes ! nat h))"
proof (intro conjI impI)
  assume p: "py_index blockIndexes h = Inr e"
  show "(get_block_by_height fs blockIndexes h = Inl ValueError) =
         (file_no e = - 1 \<or> data_pos e = - 1 \<or>
          (content fs (file_no e) \<noteq> None \<and> \<not> fits_off_t (data_pos e - 4)))"
    using p get_block_ValueError_iff [of fs "file_no e" "data_pos e"]
    by (auto simp: get_block_by_height_def split: sum.splits)
  {
    assume "file_no e = - 1 \<or> data_pos e = - 1"
    then show "get_block_by_height fs blockIndexes h = Inl ValueError"
      using p by (auto simp: get_block_by_height_def)
  }
  {
    assume "\<not> (file_no e = - 1 \<or> data_pos e = - 1)"
    then show "get_block_by_height fs blockIndexes h =
           map_sum id (\<lambda>raw. \<lparr>block_raw = raw, block_height = Some (height e)\<rparr>)
             (get_block fs (file_no e) (data_pos e))"
      using p by (auto simp: get_block_by_height_def split: sum.splits)
  }
next
  assume "0 \<le> h \<and> h < int (length blockIndexes)"
  then show "py_index blockIndexes h = Inr (blockIndexes ! nat h)"
    by (simp add: py_index_def)
qed

theorem get_block_by_height_positional_witness:
  "get_block_by_height demo_fs gap_index 0 = Inr \<lparr>block_raw = [0x61, 0x30], block_height = Some 5\<rparr> \<and>
   get_block_by_height demo_fs gap_index 1 = Inl ValueError \<and>
   get_block_by_height demo_fs gap_index 2 \<noteq> Inl ValueError \<and>
   py_index gap_index 2 = Inr (gap_index ! 2)"
proof -
  have p0: "py_index gap_index 0 = Inr (gap_index ! 0)" and p1: "py_index gap_index 1 = Inr (gap_index ! 1)"
    and p2: "py_index gap_index 2 = Inr (gap_index ! 2)"
    by (simp_all add: py_index_def gap_index_def)
  have e0: "\<not> (file_no (gap_index ! 0) = - 1 \<or> data_pos (gap_index ! 0) = - 1)"
    and e1: "file_no (gap_index ! 1) = - 1 \<or> data_pos (gap_index ! 1) = - 1"
    and e2: "\<not> (file_no (gap_index ! 2) = - 1 \<or> data_pos (gap_index ! 2) = - 1 \<or>
          (content demo_fs (file_no (gap_index ! 2)) \<noteq> None \<and>
           \<not> fits_off_t (data_pos (gap_index ! 2) - 4)))"
    and r: "(0::int) \<le> 2 \<and> 2 < int (length gap_index)"
    by (simp_all add: gap_index_def fits_off_t_def)
  have g: "get_block demo_fs (file_no (gap_index ! 0)) (data_pos (gap_index ! 0)) = Inr [0x61, 0x30]"
    using demo_blocks(1) by (simp add: gap_index_def)
  have h: "height (gap_index ! 0) = 5" by (simp add: gap_index_def)
  have a: "get_block_by_height demo_fs gap_index 0 = Inr \<lparr>block_raw = [0x61, 0x30], block_height = Some 5\<rparr>"
    using get_block_by_height_positional [of gap_index 0 "gap_index ! 0" demo_fs] p0 e0 g h by simp
  have b: "get_block_by_height demo_fs gap_index 1 = Inl ValueError"
    using get_block_by_height_positional [of gap_index 1 "gap_index ! 1" demo_fs] p1 e1 by blast
  have c: "get_block_by_height demo_fs gap_index 2 \<noteq> Inl ValueError"
    using get_block_by_height_positional [of gap_index 2 "gap_index ! 2" demo_fs] p2 e2 by blast
  have d: "py_index gap_index 2 = Inr (gap_index ! 2)"
    using get_block_by_height_positional [of gap_index 2 "gap_index ! 2" demo_fs] r by simp
  show ?thesis using a b c d by simp
qed

text \<open>
  The claim's "exactly when" fails: the entry of \<open>far_index\<close> has a file number and a
  data offset other than \<open>-1\<close>, its block file exists, and the lookup fails with
  \<open>ValueError\<close>, raised by the seek of the fetch.
\<close>

theorem get_block_by_height_far_offset:
  "py_index far_index 0 = Inr (far_index ! 0) \<and>
   file_no (far_index ! 0) = 0 \<and>
   data_pos (far_index ! 0) = 2 ^ 63 + 4 \<and>
   content demo_fs 0 = Some demo_file \<and>
   get_block demo_fs 0 (2 ^ 63 + 4) = Inl ValueError \<and>
   get_block_by_height demo_fs far_index 0 = Inl ValueError"
  by (simp add: py_index_def far_index_def get_block_by_height_def get_block_def file_seek_def
        fits_off_t_def demo_fs_def)

section \<open>Properties of the ordered iteration\<close>

lemma ordered_blocks_loop_located:
  "\<forall>x\<in>set (takeWhile (\<lambda>x. \<not> no_data x) es). block_at fs x \<noteq> None \<Longrightarrow>
   ordered_blocks_loop fs es =
     (map (\<lambda>x. the (block_at fs x)) (takeWhile (\<lambda>x. \<not> no_data x) es), None)"
proof (induction es)
  case Nil
  then show ?case by simp
next
  case (Cons x es)
  show ?case
  proof (cases "no_data x")
    case True
    then show ?thesis by (simp add: no_data_def)
  next
    case False
    then have b: "block_at fs x \<noteq> None" using Cons.prems by simp
    then obtain raw where raw: "get_block fs (file_no x) (data_pos x) = Inr raw"
      using False by (auto simp: block_at_def no_data_def split: sum.splits)
    have "\<forall>y\<in>set (takeWhile (\<lambda>x. \<not> no_data x) es). block_at fs y \<noteq> None"
      using Cons.prems False by simp
    then have "ordered_blocks_loop fs es =
      (map (\<lambda>x. the (block_at fs x)) (takeWhile (\<lambda>x. \<not> no_data x) es), None)"
      by (rule Cons.IH)
    then show ?thesis using False raw
      by (simp add: no_data_def block_at_def)
  qed
qed

lemma yielded_heights_Cons:
  "yielded_heights (\<lparr>block_raw = raw, block_height = Some h\<rparr> # bs) = h # yielded_heights bs"
  by (simp add: yielded_heights_def List.map_filter_simps)

lemma yielded_heights_prefix:
  "\<exists>k. yielded_heights (fst (ordered_blocks_loop fs es)) = take k (map height es)"
proof (induction es)
  case Nil
  then show ?case by (simp add: yielded_heights_def List.map_filter_simps)
next
  case (Cons x es)
  then obtain k where k: "yielded_heights (fst (ordered_blocks_loop fs es)) = take k (map height es)"
    by blast
  show ?case
  proof (cases "file_no x = - 1 \<or> data_pos x = - 1")
    case True
    then have "yielded_heights (fst (ordered_blocks_loop fs (x # es))) = take 0 (map height (x # es))"
      by (simp add: yielded_heights_def List.map_filter_simps)
    then show ?thesis by blast
  next
    case False
    show ?thesis
    proof (cases "get_block fs (file_no x) (data_pos x)")
      case (Inl e)
      then have "yielded_heights (fst (ordered_blocks_loop fs (x # es))) = take 0 (map height (x # es))"
        using False by (simp add: yielded_heights_def List.map_filter_simps)
      then show ?thesis by blast
    next
      case (Inr raw)
      then have "yielded_heights (fst (ordered_blocks_loop fs (x # es))) = take (Suc k) (map height (x # es))"
        using False k by (simp add: yielded_heights_Cons)
      then show ?thesis by blast
    qed
  qed
qed

lemma sorted_py_slice:
  "sorted (map height xs) \<Longrightarrow> sorted (map height (py_slice xs a b))"
  by (simp add: py_slice_def bytes_slice_def drop_map take_map sorted_wrt_drop sorted_wrt_take
        flip: drop_map take_map)

lemma sorted_rev_py_slice_rev:
  "sorted (map height xs) \<Longrightarrow> sorted (rev (map height (py_slice (rev xs) a b)))"
  by (simp add: py_slice_def bytes_slice_def take_rev drop_rev rev_map sorted_wrt_drop sorted_wrt_take
        flip: drop_map take_map rev_map)


lemma py_slice_in_range:
  "0 \<le> a \<Longrightarrow> a \<le> b \<Longrightarrow> b \<le> int (length xs) \<Longrightarrow>
   py_slice xs a b = drop (nat a) (take (nat b) xs)"
proof -
  assume "0 \<le> a" "a \<le> b" "b \<le> int (length xs)"
  then have "nat b \<le> length xs" "nat a \<le> length xs" "\<not> a < 0" "\<not> b < 0" by linarith+
  then show ?thesis by (simp add: py_slice_def py_bound_def bytes_slice_def)
qed

text \<open>
  C5, as the code has it. An omitted end bound is the length \<open>L\<close> of the index. When the
  end is not below the start the loop runs over the slice from start to end of the index,
  otherwise over the slice from \<open>L - start\<close> to \<open>L - end\<close> of the reversed index. The
  blocks of that slice are yielded in its order up to, and not including, its first entry
  without file number or data offset, where the iteration ends without an exception. Over
  an index sorted by height the heights yielded ascend in the first case and descend in the
  second.
\<close>

theorem get_ordered_blocks_window:
  "get_ordered_blocks fs idx start None = get_ordered_blocks fs idx start (Some (int (length idx))) \<and>
   (\<not> e < start \<longrightarrow> ordered_entries idx start (Some e) = py_slice idx start e) \<and>
   (e < start \<longrightarrow>
      ordered_entries idx start (Some e) =
        py_slice (rev idx) (int (length idx) - start) (int (length idx) - e)) \<and>
   ((\<forall>x\<in>set (takeWhile (\<lambda>x. \<not> no_data x) (ordered_entries idx start end_opt)).
        block_at fs x \<noteq> None) \<longrightarrow>
      get_ordered_blocks fs idx start end_opt =
        (map (\<lambda>x. the (block_at fs x))
           (takeWhile (\<lambda>x. \<not> no_data x) (ordered_entries idx start end_opt)), None)) \<and>
   (sorted (map height idx) \<and> \<not> e < start \<longrightarrow>
      sorted (yielded_heights (fst (get_ordered_blocks fs idx start (Some e))))) \<and>
   (sorted (map height idx) \<and> e < start \<longrightarrow>
      sorted (rev (yielded_heights (fst (get_ordered_blocks fs idx start (Some e)))))) \<and>
   (0 \<le> start \<and> start \<le> e \<and> e \<le> int (length idx) \<longrightarrow>
      py_slice idx start e = drop (nat start) (take (nat e) idx))"
proof (intro conjI impI)
  show "get_ordered_blocks fs idx start None = get_ordered_blocks fs idx start (Some (int (length idx)))"
    by (simp add: get_ordered_blocks_def ordered_entries_def)
next
  assume "\<not> e < start"
  then show "ordered_entries idx start (Some e) = py_slice idx start e"
    by (simp add: ordered_entries_def)
next
  assume "e < start"
  then show "ordered_entries idx start (Some e) =
        py_slice (rev idx) (int (length idx) - start) (int (length idx) - e)"
    by (simp add: ordered_entries_def)
next
  assume "\<forall>x\<in>set (takeWhile (\<lambda>x. \<not> no_data x) (ordered_entries idx start end_opt)).
        block_at fs x \<noteq> None"
  then show "get_ordered_blocks fs idx start end_opt =
        (map (\<lambda>x. the (block_at fs x))
           (takeWhile (\<lambda>x. \<not> no_data x) (ordered_entries idx start end_opt)), None)"
    unfolding get_ordered_blocks_def by (rule ordered_blocks_loop_located)
next
  assume h: "sorted (map height idx) \<and> \<not> e < start"
  obtain k where k: "yielded_heights (fst (get_ordered_blocks fs idx start (Some e))) =
      take k (map height (ordered_entries idx start (Some e)))"
    unfolding get_ordered_blocks_def using yielded_heights_prefix by blast
  have "sorted (map height (ordered_entries idx start (Some e)))"
    using h by (simp add: ordered_entries_def sorted_py_slice)
  then show "sorted (yielded_heights (fst (get_ordered_blocks fs idx start (Some e))))"
    unfolding k by (rule sorted_wrt_take)
next
  assume h: "sorted (map height idx) \<and> e < start"
  obtain k where k: "yielded_heights (fst (get_ordered_blocks fs idx start (Some e))) =
      take k (map height (ordered_entries idx start (Some e)))"
    unfolding get_ordered_blocks_def using yielded_heights_prefix by blast
  have "sorted (rev (map height (ordered_entries idx start (Some e))))"
    using h sorted_rev_py_slice_rev [of idx] by (simp add: ordered_entries_def)
  then have "sorted (drop (length (map height (ordered_entries idx start (Some e))) - k)
      (rev (map height (ordered_entries idx start (Some e)))))"
    by (rule sorted_wrt_drop)
  then show "sorted (rev (yielded_heights (fst (get_ordered_blocks fs idx start (Some e)))))"
    unfolding k by (simp add: rev_take)
next
  assume "0 \<le> start \<and> start \<le> e \<and> e \<le> int (length idx)"
  then show "py_slice idx start e = drop (nat start) (take (nat e) idx)"
    by (intro py_slice_in_range) simp_all
qed

lemma gap_blocks:
  "block_at demo_fs (gap_index ! 0) = Some \<lparr>block_raw = [0x61, 0x30], block_height = Some 5\<rparr>"
  "block_at demo_fs (gap_index ! 2) = Some \<lparr>block_raw = [0x63, 0x62], block_height = Some 6\<rparr>"
  by (simp_all add: block_at_def gap_index_def demo_blocks)

theorem get_ordered_blocks_window_witness:
  "get_ordered_blocks demo_fs gap_index 0 None = get_ordered_blocks demo_fs gap_index 0 (Some 3) \<and>
   ordered_entries gap_index 0 (Some 3) = gap_index \<and>
   ordered_entries gap_index 3 (Some 2) = [gap_index ! 2] \<and>
   get_ordered_blocks demo_fs gap_index 0 None =
     ([\<lparr>block_raw = [0x61, 0x30], block_height = Some 5\<rparr>], None) \<and>
   get_ordered_blocks demo_fs gap_index 3 (Some 2) =
     ([\<lparr>block_raw = [0x63, 0x62], block_height = Some 6\<rparr>], None) \<and>
   sorted (yielded_heights (fst (get_ordered_blocks demo_fs gap_index 0 (Some 3)))) \<and>
   sorted (rev (yielded_heights (fst (get_ordered_blocks demo_fs gap_index 3 (Some 2)))))"
proof -
  have len: "int (length gap_index) = 3" by (simp add: gap_index_def)
  have srt: "sorted (map height gap_index)" by (simp add: gap_index_def)
  have fwd: "\<not> (3::int) < 0" and bwd: "(2::int) < 3" and rng: "(0::int) \<le> 0 \<and> (0::int) \<le> 3 \<and> 3 \<le> int (length gap_index)"
    by (simp_all add: gap_index_def)
  note f = get_ordered_blocks_window [of demo_fs gap_index 0 3 None]
  note b = get_ordered_blocks_window [of demo_fs gap_index 3 2 "Some 2"]
  have e1: "ordered_entries gap_index 0 (Some 3) = gap_index"
    using f fwd rng by (simp add: gap_index_def)
  have e2: "ordered_entries gap_index 3 (Some 2) = [gap_index ! 2]"
    using b bwd len by (simp add: py_slice_def py_bound_def bytes_slice_def gap_index_def)
  have d: "get_ordered_blocks demo_fs gap_index 0 None = get_ordered_blocks demo_fs gap_index 0 (Some 3)"
    using f len by simp
  have tw1: "takeWhile (\<lambda>x. \<not> no_data x) (ordered_entries gap_index 0 None) = [gap_index ! 0]"
    by (simp add: ordered_entries_def py_slice_def py_bound_def bytes_slice_def gap_index_def no_data_def)
  have tw2: "takeWhile (\<lambda>x. \<not> no_data x) (ordered_entries gap_index 3 (Some 2)) = [gap_index ! 2]"
    unfolding e2 by (simp add: gap_index_def no_data_def)
  have y1: "get_ordered_blocks demo_fs gap_index 0 None =
     ([\<lparr>block_raw = [0x61, 0x30], block_height = Some 5\<rparr>], None)"
  proof -
    have "\<forall>x\<in>set (takeWhile (\<lambda>x. \<not> no_data x) (ordered_entries gap_index 0 None)).
        block_at demo_fs x \<noteq> None"
      unfolding tw1 using gap_blocks(1) by simp
    with f have "get_ordered_blocks demo_fs gap_index 0 None =
        (map (\<lambda>x. the (block_at demo_fs x))
           (takeWhile (\<lambda>x. \<not> no_data x) (ordered_entries gap_index 0 None)), None)"
      by blast
    then show ?thesis unfolding tw1 using gap_blocks(1) by simp
  qed
  have y2: "get_ordered_blocks demo_fs gap_index 3 (Some 2) =
     ([\<lparr>block_raw = [0x63, 0x62], block_height = Some 6\<rparr>], None)"
  proof -
    have "\<forall>x\<in>set (takeWhile (\<lambda>x. \<not> no_data x) (ordered_entries gap_index 3 (Some 2))).
        block_at demo_fs x \<noteq> None"
      unfolding tw2 using gap_blocks(2) by simp
    with b have "get_ordered_blocks demo_fs gap_index 3 (Some 2) =
        (map (\<lambda>x. the (block_at demo_fs x))
           (takeWhile (\<lambda>x. \<not> no_data x) (ordered_entries gap_index 3 (Some 2))), None)"
      by blast
    then show ?thesis unfolding tw2 using gap_blocks(2) by simp
  qed
  have s1: "sorted (yielded_heights (fst (get_ordered_blocks demo_fs gap_index 0 (Some 3))))"
    using f srt fwd by blast
  have s2: "sorted (rev (yielded_heights (fst (get_ordered_blocks demo_fs gap_index 3 (Some 2)))))"
    using b srt bwd by blast
  show ?thesis using d e1 e2 y1 y2 s1 s2 by blast
qed

text \<open>
  The claim without the stopping rule fails: the slice from 0 to 3 of \<open>gap_index\<close> is
  the whole index, its third block is on disk, and only the first block is yielded.
\<close>

theorem get_ordered_blocks_stops_at_gap:
  "py_slice gap_index 0 3 = gap_index \<and>
   get_ordered_blocks demo_fs gap_index 0 None =
     ([\<lparr>block_raw = [0x61, 0x30], block_height = Some 5\<rparr>], None) \<and>
   block_at demo_fs (gap_index ! 2) = Some \<lparr>block_raw = [0x63, 0x62], block_height = Some 6\<rparr> \<and>
   length (fst (get_ordered_blocks demo_fs gap_index 0 None)) \<noteq> length (py_slice gap_index 0 3)"
proof -
  have a: "py_slice gap_index 0 3 = gap_index"
    by (simp add: py_slice_def py_bound_def bytes_slice_def gap_index_def)
  have b: "get_ordered_blocks demo_fs gap_index 0 None =
     ([\<lparr>block_raw = [0x61, 0x30], block_height = Some 5\<rparr>], None)"
    by (simp add: get_ordered_blocks_def ordered_entries_def py_slice_def py_bound_def
          bytes_slice_def gap_index_def demo_blocks)
  have c: "length gap_index = 3" by (simp add: gap_index_def)
  show ?thesis using a b c gap_blocks(2) by simp
qed

section \<open>Properties of the transaction lookup\<close>

lemma length_encode_varint: "length (encode_varint v) = nbytes v"
proof (induction v rule: encode_varint.induct)
  case (1 v)
  show ?case
  proof (cases "v < 128")
    case True
    then show ?thesis by (subst encode_varint.simps, subst nbytes.simps) simp
  next
    case False
    then show ?thesis using 1 by (subst encode_varint.simps, subst nbytes.simps) simp
  qed
qed

lemma decode_varint_prefix:
  "decode_varint (encode_varint v @ rest) = Inr (v, nbytes v)"
  using decode_encode_loop [of v rest 0 0 0] by (simp add: decode_varint_def)

lemma tx_locator_three:
  "tx_locator (Some (encode_varint f @ encode_varint b @ encode_varint t @ rest)) =
     Inr (f, b, (t, nbytes t))"
proof -
  have d2: "drop (nbytes f) (encode_varint f @ encode_varint b @ encode_varint t @ rest) =
              encode_varint b @ encode_varint t @ rest"
    by (simp add: length_encode_varint [symmetric])
  have d3: "drop (nbytes f + nbytes b) (encode_varint f @ encode_varint b @ encode_varint t @ rest) =
              encode_varint t @ rest"
    by (simp add: length_encode_varint [symmetric])
  show ?thesis
    by (simp only: tx_locator_def option.case decode_varint_prefix sum.case prod.case d2 d3)
qed

lemma hex_digits: "list_all (\<lambda>n. hexval (hex_digit n) = Some n) [0..<16]"
  by code_simp

lemma hexval_hex_digit: "n < 16 \<Longrightarrow> hexval (hex_digit n) = Some n"
  using hex_digits by (simp add: list_all_iff)

lemma unhexlify_hexlify:
  "unhexlify (concat (map (\<lambda>b. [hex_digit (unat b div 16), hex_digit (unat b mod 16)]) bs)) = Inr bs"
proof (induction bs)
  case Nil
  then show ?case by simp
next
  case (Cons b bs)
  have lt: "unat b < 256" using unsigned_less [of b] by simp
  then have hi: "hexval (hex_digit (unat b div 16)) = Some (unat b div 16)"
    by (intro hexval_hex_digit) simp
  have lo: "hexval (hex_digit (unat b mod 16)) = Some (unat b mod 16)"
    by (intro hexval_hex_digit) simp
  have "of_nat (16 * (unat b div 16) + unat b mod 16) = b" by simp
  then show ?case using Cons hi lo by simp
qed

lemma lx_format_hash: "lx (format_hash h) = Inr h"
  by (simp add: lx_def format_hash_def unhexlify_hexlify)


text \<open>
  C3, as the code has it. For a transaction id in display form whose record is in the
  store under the tag \<open>t\<close> and the id's bytes in internal order, a stored value that
  begins with three varints (block-file number, offset of the block in the file, offset of
  the transaction in the block) makes the lookup fetch the block at that file and offset
  and hand it, with the decoded third varint, to the block's single-transaction decoder.
  No fourth varint is read. Without a record the lookup fails with the varint decoder's
  \<open>EOFError\<close>.
\<close>

theorem get_transaction_three_varints:
  "(lx txid = Inr key \<and>
    txIndexDb (0x74 # key) = Some (encode_varint f @ encode_varint b @ encode_varint t @ rest) \<longrightarrow>
      get_transaction fs txIndexDb tx_at txid =
        (case get_block fs (int f) (int b) of
           Inl e \<Rightarrow> Inl e
         | Inr raw \<Rightarrow> tx_at \<lparr>block_raw = raw, block_height = None\<rparr> (t, nbytes t))) \<and>
   (lx txid = Inr key \<and> txIndexDb (0x74 # key) = None \<longrightarrow>
      get_transaction fs txIndexDb tx_at txid = Inl EOFError) \<and>
   lx (format_hash h) = Inr h"
proof (intro conjI impI)
  assume "lx txid = Inr key \<and>
    txIndexDb (0x74 # key) = Some (encode_varint f @ encode_varint b @ encode_varint t @ rest)"
  then show "get_transaction fs txIndexDb tx_at txid =
        (case get_block fs (int f) (int b) of
           Inl e \<Rightarrow> Inl e
         | Inr raw \<Rightarrow> tx_at \<lparr>block_raw = raw, block_height = None\<rparr> (t, nbytes t))"
    by (simp add: get_transaction_def tx_locator_three)
next
  assume "lx txid = Inr key \<and> txIndexDb (0x74 # key) = None"
  then show "get_transaction fs txIndexDb tx_at txid = Inl EOFError"
    by (simp add: get_transaction_def tx_locator_def decode_varint_def)
next
  show "lx (format_hash h) = Inr h" by (rule lx_format_hash)
qed

lemma demo_lx:
  "lx ''0a0b'' = Inr [0x0b, 0x0a]" "lx ''0c0d'' = Inr [0x0d, 0x0c]" "lx ''ffff'' = Inr [0xff, 0xff]"
  by (simp_all add: lx_def hexval_def)

lemma demo_varints:
  "encode_varint 0 = [0x00]" "encode_varint 18 = [0x12]" "encode_varint 2 = [0x02]" "nbytes 2 = 1"
  by (simp_all add: encode_varint.simps nbytes.simps)

theorem get_transaction_three_varints_witness:
  "get_transaction demo_fs demo_txdb handed ''0a0b'' = Inr ([0x62, 0x30], (2, 1)) \<and>
   get_transaction demo_fs demo_txdb handed ''ffff'' = Inl EOFError \<and>
   lx (format_hash [0x0b, 0x0a]) = Inr [0x0b, 0x0a]"
proof -
  have r: "lx ''0a0b'' = Inr [0x0b, 0x0a] \<and>
      demo_txdb (0x74 # [0x0b, 0x0a]) = Some (encode_varint 0 @ encode_varint 18 @ encode_varint 2 @ [])"
    by (simp add: demo_lx demo_varints demo_txdb_def)
  have m: "lx ''ffff'' = Inr [0xff, 0xff] \<and> demo_txdb (0x74 # [0xff, 0xff]) = None"
    by (simp add: demo_lx demo_txdb_def)
  have a: "get_transaction demo_fs demo_txdb handed ''0a0b'' = Inr ([0x62, 0x30], (2, 1))"
    using get_transaction_three_varints [of "''0a0b''" "[0x0b, 0x0a]" demo_txdb 0 18 2 "[]" demo_fs handed] r
    by (simp add: demo_blocks demo_varints handed_def)
  have b: "get_transaction demo_fs demo_txdb handed ''ffff'' = Inl EOFError"
    using get_transaction_three_varints [of "''ffff''" "[0xff, 0xff]" demo_txdb 0 0 0 "[]" demo_fs handed] m
    by blast
  have c: "lx (format_hash [0x0b, 0x0a]) = Inr [0x0b, 0x0a]"
    using get_transaction_three_varints [of "''ffff''" "[0xff, 0xff]" demo_txdb 0 0 0 "[]" demo_fs handed "[0x0b, 0x0a]"]
    by blast
  show ?thesis using a b c by blast
qed

text \<open>
  The claim's reading fails on a record of four varints (0, 18, 7, 5): the code hands the
  block decoder the third varint, 7, paired with its length, where the fourth, 5, is the
  offset the claim means; and a lookup without a record ends in the same \<open>EOFError\<close> as
  a truncated record.
\<close>

theorem get_transaction_fourth_varint_unread:
  "tx_locator (Some [0x00, 0x12, 0x07, 0x05]) = Inr (0, 18, (7, 1)) \<and>
   tx_locator_spec [0x00, 0x12, 0x07, 0x05] = Inr (0, 18, 5) \<and>
   get_transaction demo_fs demo_txdb handed ''0c0d'' = Inr ([0x62, 0x30], (7, 1)) \<and>
   get_transaction demo_fs demo_txdb handed ''ffff'' = Inl EOFError \<and>
   tx_locator (Some [0x80]) = Inl EOFError"
  by (simp add: tx_locator_def tx_locator_spec_def decode_varint_def get_transaction_def
        demo_lx demo_txdb_def demo_blocks handed_def)

section \<open>Properties of the construction\<close>

text \<open>
  C1 against the code. \<open>_build_block_index\<close> never returns: with \<open>self.blockIndexDb\<close>
  unassigned it raises \<open>AttributeError\<close> (after an exception of the cache load, if there is
  one), and with the attribute assigned it raises at \<open>db.close()\<close> at the latest. So every
  construction ends in an exception and no index is retained.
\<close>

theorem Blockchain_init_raises:
  "isl (build_block_index decode hdr fs files self_cache self_blockIndexDb) \<and>
   Blockchain_init decode hdr fs files path cache =
     (case load_cache files cache of Inl e \<Rightarrow> Inl e | Inr loaded \<Rightarrow> Inl AttributeError) \<and>
   Blockchain_init decode hdr fs (\<lambda>p. None) path None = Inl AttributeError \<and>
   build_block_index decode hdr fs (\<lambda>p. None) None (Some []) = Inl NameError"
  by (auto simp: build_block_index_def Blockchain_init_def db_close_def load_cache_def
      split: sum.splits option.splits)

section \<open>Properties of the scanner\<close>

lemma filter_blocks_loop_exhausts:
  "filter_blocks_loop fs ts p n es sel = (ys, None, rest, sel') \<Longrightarrow> rest = []"
proof (induction es arbitrary: n sel ys sel')
  case Nil
  then show ?case by simp
next
  case (Cons e es)
  show ?case
  proof (cases "file_no e = - 1 \<or> data_pos e = - 1")
    case True
    then show ?thesis using Cons.prems by auto
  next
    case False
    show ?thesis
    proof (cases "get_block fs (file_no e) (data_pos e)")
      case (Inl err)
      then show ?thesis using Cons.prems False by simp
    next
      case (Inr raw)
      let ?b = "\<lparr>block_raw = raw, block_height = Some (height e)\<rparr>"
      show ?thesis
      proof (cases "if n mod 1000 = 0 then ts ?b else Inr 0")
        case (Inl err)
        then show ?thesis using Cons.prems False Inr by (simp add: Let_def)
      next
        case t: (Inr t)
        show ?thesis
        proof (cases "p ?b")
          case True
          obtain ys' err' rest' sel'' where r:
            "filter_blocks_loop fs ts p (n + 1) es (sel @ [Some (height e)]) = (ys', err', rest', sel'')"
            by (metis prod_cases4)
          then have "err' = None" "rest' = rest"
            using Cons.prems False Inr t True by (simp_all add: Let_def)
          then show ?thesis using Cons.IH r by blast
        next
          case f: False
          have "filter_blocks_loop fs ts p (n + 1) es sel = (ys, None, rest, sel')"
            using Cons.prems False Inr t f by (simp add: Let_def)
          then show ?thesis by (rule Cons.IH)
        qed
      qed
    qed
  qed
qed

lemma filter_blocks_loop_selected:
  "filter_blocks_loop fs ts p n es sel = (ys, err, rest, sel') \<Longrightarrow>
   sel' = sel @ map block_height ys \<and>
   (\<forall>b\<in>set ys. \<exists>e\<in>set es. block_at fs e = Some b \<and> block_height b = Some (height e))"
proof (induction es arbitrary: n sel ys sel' err rest)
  case Nil
  then show ?case by simp
next
  case (Cons e es)
  show ?case
  proof (cases "file_no e = - 1 \<or> data_pos e = - 1")
    case True
    then show ?thesis using Cons.prems by auto
  next
    case False
    show ?thesis
    proof (cases "get_block fs (file_no e) (data_pos e)")
      case (Inl x)
      then show ?thesis using Cons.prems False by simp
    next
      case (Inr raw)
      let ?b = "\<lparr>block_raw = raw, block_height = Some (height e)\<rparr>"
      have be: "block_at fs e = Some ?b" using False Inr by (simp add: block_at_def)
      show ?thesis
      proof (cases "if n mod 1000 = 0 then ts ?b else Inr 0")
        case (Inl x)
        then show ?thesis using Cons.prems False Inr by (simp add: Let_def)
      next
        case t: (Inr t)
        show ?thesis
        proof (cases "p ?b")
          case True
          obtain ys' err' rest' sel'' where r:
            "filter_blocks_loop fs ts p (n + 1) es (sel @ [Some (height e)]) = (ys', err', rest', sel'')"
            by (metis prod_cases4)
          then have eq: "ys = ?b # ys'" "sel' = sel''"
            using Cons.prems False Inr t True by (simp_all add: Let_def)
          from Cons.IH [OF r] have ih: "sel'' = (sel @ [Some (height e)]) @ map block_height ys'"
            "\<forall>b\<in>set ys'. \<exists>e\<in>set es. block_at fs e = Some b \<and> block_height b = Some (height e)"
            by blast+
          show ?thesis using eq ih be by auto
        next
          case f: False
          have "filter_blocks_loop fs ts p (n + 1) es sel = (ys, err, rest, sel')"
            using Cons.prems False Inr t f by (simp add: Let_def)
          from Cons.IH [OF this] show ?thesis by auto
        qed
      qed
    qed
  qed
qed

lemma get_block_by_height_block_at:
  "py_index index h = Inr e \<Longrightarrow> block_at fs e = Some b \<Longrightarrow> get_block_by_height fs index h = Inr b"
  by (auto simp: get_block_by_height_def block_at_def split: if_splits sum.splits)

lemma replay_blocks_same:
  "\<forall>b\<in>set ys. \<exists>e h. block_height b = Some h \<and> py_index index h = Inr e \<and> block_at fs e = Some b \<Longrightarrow>
   replay_blocks fs index (map block_height ys) = (ys, None)"
proof (induction ys)
  case Nil
  then show ?case by simp
next
  case (Cons b ys)
  then obtain e h where b: "block_height b = Some h" "py_index index h = Inr e" "block_at fs e = Some b"
    by auto
  have g: "get_block_by_height fs index h = Inr b"
    using b(2) b(3) by (rule get_block_by_height_block_at)
  have "replay_blocks fs index (map block_height ys) = (ys, None)"
    using Cons.prems by (intro Cons.IH) simp
  then show ?case using b(1) g by simp
qed


lemma fresh_blocks: "blocks (fresh_scanner index) = index"
  by (simp add: fresh_scanner_def ordered_entries_def py_slice_def py_bound_def bytes_slice_def)

lemma dense_first_pass:
  "filter_blocks demo_fs no_timestamp (\<lambda>b. True) (fresh_scanner dense_index) =
     ([\<lparr>block_raw = [0x61, 0x30], block_height = Some 0\<rparr>,
       \<lparr>block_raw = [0x62, 0x30], block_height = Some 1\<rparr>],
      None,
      \<lparr>blockchain = dense_index, blocks = [], selected_blocks = Some [Some 0, Some 1]\<rparr>)"
  by (simp add: filter_blocks_def fresh_blocks)
     (simp add: fresh_scanner_def dense_index_def demo_blocks no_timestamp_def Let_def)

text \<open>
  C7 against the code. Clearing does reset the selection, but the filter that the next
  iteration runs reads the same generator \<open>self.blocks\<close> as the first pass, and a pass
  that ran to its end has exhausted it: the predicate is applied to nothing, no block is
  yielded, and the selection is left empty.
\<close>

theorem clear_then_iterate_yields_nothing:
  "filter_blocks fs timestamp flt s = (yielded, None, s1) \<longrightarrow>
     selected_blocks (clear_block_filter s1) = None \<and>
     iterate_blocks fs timestamp' flt' (clear_block_filter s1) =
       ([], None, s1\<lparr>selected_blocks := Some []\<rparr>)"
proof
  assume a: "filter_blocks fs timestamp flt s = (yielded, None, s1)"
  obtain ys err rest sel where l: "filter_blocks_loop fs timestamp flt 0 (blocks s) [] = (ys, err, rest, sel)"
    by (metis prod_cases4)
  with a have e: "err = None" and s1: "s1 = s\<lparr>blocks := rest, selected_blocks := Some sel\<rparr>"
    by (simp_all add: filter_blocks_def)
  have "rest = []" using l e filter_blocks_loop_exhausts by blast
  then have b: "blocks s1 = []" using s1 by simp
  show "selected_blocks (clear_block_filter s1) = None \<and>
     iterate_blocks fs timestamp' flt' (clear_block_filter s1) =
       ([], None, s1\<lparr>selected_blocks := Some []\<rparr>)"
    using b by (simp add: clear_block_filter_def iterate_blocks_def filter_blocks_def)
qed

theorem clear_then_iterate_yields_nothing_witness:
  "filter_blocks demo_fs no_timestamp (\<lambda>b. True) (fresh_scanner dense_index) =
     ([\<lparr>block_raw = [0x61, 0x30], block_height = Some 0\<rparr>,
       \<lparr>block_raw = [0x62, 0x30], block_height = Some 1\<rparr>],
      None,
      \<lparr>blockchain = dense_index, blocks = [], selected_blocks = Some [Some 0, Some 1]\<rparr>) \<and>
   iterate_blocks demo_fs no_timestamp (\<lambda>b. True)
     (clear_block_filter
        \<lparr>blockchain = dense_index, blocks = [], selected_blocks = Some [Some 0, Some 1]\<rparr>) =
     ([], None, \<lparr>blockchain = dense_index, blocks = [], selected_blocks = Some []\<rparr>)"
  using dense_first_pass
    clear_then_iterate_yields_nothing [of demo_fs no_timestamp "\<lambda>b. True" "fresh_scanner dense_index"
      "[\<lparr>block_raw = [0x61, 0x30], block_height = Some 0\<rparr>,
        \<lparr>block_raw = [0x62, 0x30], block_height = Some 1\<rparr>]"
      "\<lparr>blockchain = dense_index, blocks = [], selected_blocks = Some [Some 0, Some 1]\<rparr>"
      no_timestamp "\<lambda>b. True"]
  by simp

text \<open>
  C4, as the code has it. When every entry that \<open>self.blocks\<close> still has to visit sits
  in the index at the position given by its own height, a filter pass followed by a second
  iteration without clearing yields the same blocks again, whatever predicate (and header
  decoder) the second iteration is given: it only looks the remembered heights up. A fresh
  scanner over an index in which the entry at position \<open>i\<close> has height \<open>i\<close> is such a
  state.
\<close>

theorem filter_then_replay:
  "((\<forall>e\<in>set (blocks s). py_index (blockchain s) (height e) = Inr e) \<and>
    filter_blocks fs timestamp flt s = (yielded, err, s1) \<longrightarrow>
      iterate_blocks fs timestamp' flt' s1 = (yielded, None, s1)) \<and>
   ((\<forall>i<length index. height (index ! i) = int i) \<longrightarrow>
      (\<forall>e\<in>set (blocks (fresh_scanner index)). py_index index (height e) = Inr e))"
proof (intro conjI impI)
  assume a: "(\<forall>e\<in>set (blocks s). py_index (blockchain s) (height e) = Inr e) \<and>
    filter_blocks fs timestamp flt s = (yielded, err, s1)"
  obtain ys err' rest sel where l: "filter_blocks_loop fs timestamp flt 0 (blocks s) [] = (ys, err', rest, sel)"
    by (metis prod_cases4)
  with a have y: "ys = yielded" and s1: "s1 = s\<lparr>blocks := rest, selected_blocks := Some sel\<rparr>"
    by (simp_all add: filter_blocks_def)
  from filter_blocks_loop_selected [OF l] have sel: "sel = map block_height ys"
    and src: "\<forall>b\<in>set ys. \<exists>e\<in>set (blocks s). block_at fs e = Some b \<and> block_height b = Some (height e)"
    by simp_all
  have "\<forall>b\<in>set ys. \<exists>e h. block_height b = Some h \<and> py_index (blockchain s) h = Inr e \<and>
      block_at fs e = Some b"
    using src a by blast
  then have "replay_blocks fs (blockchain s) (map block_height ys) = (ys, None)"
    by (rule replay_blocks_same)
  then show "iterate_blocks fs timestamp' flt' s1 = (yielded, None, s1)"
    using s1 sel y by (simp add: iterate_blocks_def)
next
  assume d: "\<forall>i<length index. height (index ! i) = int i"
  show "\<forall>e\<in>set (blocks (fresh_scanner index)). py_index index (height e) = Inr e"
  proof
    fix e assume "e \<in> set (blocks (fresh_scanner index))"
    then have "e \<in> set index" by (simp add: fresh_blocks)
    then obtain i where i: "i < length index" "index ! i = e" by (auto simp: in_set_conv_nth)
    then have "height e = int i" using d by auto
    then show "py_index index (height e) = Inr e" using i by (simp add: py_index_def)
  qed
qed

theorem filter_then_replay_witness:
  "iterate_blocks demo_fs no_timestamp (\<lambda>b. False)
     \<lparr>blockchain = dense_index, blocks = [], selected_blocks = Some [Some 0, Some 1]\<rparr> =
     ([\<lparr>block_raw = [0x61, 0x30], block_height = Some 0\<rparr>,
       \<lparr>block_raw = [0x62, 0x30], block_height = Some 1\<rparr>],
      None,
      \<lparr>blockchain = dense_index, blocks = [], selected_blocks = Some [Some 0, Some 1]\<rparr>)"
proof -
  have d: "\<forall>i<length dense_index. height (dense_index ! i) = int i"
    by (simp add: dense_index_def less_Suc_eq)
  note t = filter_then_replay [of "fresh_scanner dense_index" demo_fs no_timestamp "\<lambda>b. True"
      "[\<lparr>block_raw = [0x61, 0x30], block_height = Some 0\<rparr>,
        \<lparr>block_raw = [0x62, 0x30], block_height = Some 1\<rparr>]" None
      "\<lparr>blockchain = dense_index, blocks = [], selected_blocks = Some [Some 0, Some 1]\<rparr>"
      no_timestamp "\<lambda>b. False" dense_index]
  have h: "\<forall>e\<in>set (blocks (fresh_scanner dense_index)).
      py_index (blockchain (fresh_scanner dense_index)) (height e) = Inr e"
    using t d by (simp add: fresh_scanner_def)
  show ?thesis using t h dense_first_pass by blast
qed

text \<open>
  Without that condition the claim fails. Over the pruned index of the example above (the
  blocks \<open>b\<close> to \<open>g\<close> at positions 0 to 5, with heights 5 to 10) a pass that selects
  block \<open>b\<close> remembers height 5, and the second iteration yields block \<open>g\<close>, the entry
  at position 5.
\<close>

theorem replay_yields_other_block:
  "filter_blocks demo_fs no_timestamp (\<lambda>b. block_raw b = [0x62, 0x30]) (fresh_scanner (tl demo_index)) =
     ([\<lparr>block_raw = [0x62, 0x30], block_height = Some 5\<rparr>], None,
      \<lparr>blockchain = tl demo_index, blocks = [], selected_blocks = Some [Some 5]\<rparr>) \<and>
   iterate_blocks demo_fs no_timestamp (\<lambda>b. block_raw b = [0x62, 0x30])
     \<lparr>blockchain = tl demo_index, blocks = [], selected_blocks = Some [Some 5]\<rparr> =
     ([\<lparr>block_raw = [0x67, 0x66], block_height = Some 10\<rparr>], None,
      \<lparr>blockchain = tl demo_index, blocks = [], selected_blocks = Some [Some 5]\<rparr>)"
proof -
  have a: "filter_blocks demo_fs no_timestamp (\<lambda>b. block_raw b = [0x62, 0x30]) (fresh_scanner (tl demo_index)) =
     ([\<lparr>block_raw = [0x62, 0x30], block_height = Some 5\<rparr>], None,
      \<lparr>blockchain = tl demo_index, blocks = [], selected_blocks = Some [Some 5]\<rparr>)"
    by (simp add: filter_blocks_def fresh_blocks)
       (simp add: fresh_scanner_def demo_index_def demo_blocks no_timestamp_def Let_def)
  have b: "iterate_blocks demo_fs no_timestamp (\<lambda>b. block_raw b = [0x62, 0x30])
     \<lparr>blockchain = tl demo_index, blocks = [], selected_blocks = Some [Some 5]\<rparr> =
     ([\<lparr>block_raw = [0x67, 0x66], block_height = Some 10\<rparr>], None,
      \<lparr>blockchain = tl demo_index, blocks = [], selected_blocks = Some [Some 5]\<rparr>)"
    by (simp add: iterate_blocks_def get_block_by_height_def py_index_def demo_index_def demo_blocks)
  show ?thesis using a b by simp
qed

text \<open>
  \<open>Scanner.__init__\<close> itself cannot succeed: its call of \<open>Blockchain\<close> binds \<open>cache\<close>
  twice.
\<close>

lemma Scanner_init_raises:
  "Scanner_init decode hdr fs files block_path leveldb_path leveldb_cache_path = Inl TypeError"
  by (simp add: Scanner_init_def)

end
